theory Spec2Isabelle
  imports Complex_Main
begin

section \<open>Python values\<close>

text \<open>
  The updater reads its manifest, its configuration and the version descriptor with
  \<^verbatim>\<open>json\<close>, so the values it handles are \<^verbatim>\<open>None\<close>, booleans, integers, strings,
  lists and dictionaries with string keys. A dictionary is the association list of its
  items, each key once. JSON numbers with a fractional part (Python floats) are left out
  of the value type.
\<close>

datatype pyval =
    PNone
  | PBool bool
  | PInt int
  | PStr string
  | PList "pyval list"
  | PDict "(string \<times> pyval) list"

text \<open>Two size bounds for the termination proof of \<open>py_eq\<close>.\<close>

lemma size_snd_mem: "(k, v) \<in> set xs \<Longrightarrow> size v < Suc (size_list (size_prod (\<lambda>_. 0) size) xs)"
  by (induction xs) auto

lemma size_mem: "x \<in> set xs \<Longrightarrow> size x < Suc (size_list size xs)"
  by (induction xs) auto

text \<open>
  Python's \<^verbatim>\<open>==\<close> on these values: \<^verbatim>\<open>bool\<close> is a subclass of \<^verbatim>\<open>int\<close>
  (\<^verbatim>\<open>True == 1\<close>), lists are compared element by element, dictionaries by size and
  then key by key. \<^verbatim>\<open>a != b\<close> is its negation.
\<close>

function py_eq :: "pyval \<Rightarrow> pyval \<Rightarrow> bool" where
  "py_eq PNone b = (case b of PNone \<Rightarrow> True | _ \<Rightarrow> False)"
| "py_eq (PBool x) b = (case b of PBool y \<Rightarrow> x = y | PInt j \<Rightarrow> (if x then 1 else 0) = j | _ \<Rightarrow> False)"
| "py_eq (PInt i) b = (case b of PBool y \<Rightarrow> i = (if y then 1 else 0) | PInt j \<Rightarrow> i = j | _ \<Rightarrow> False)"
| "py_eq (PStr s) b = (case b of PStr t \<Rightarrow> s = t | _ \<Rightarrow> False)"
| "py_eq (PList xs) b = (case b of PList ys \<Rightarrow> length xs = length ys \<and> list_all (\<lambda>(x, y). py_eq x y) (zip xs ys) | _ \<Rightarrow> False)"
| "py_eq (PDict xs) b = (case b of PDict ys \<Rightarrow> length xs = length ys \<and>
      list_all (\<lambda>(k, v). case map_of ys k of None \<Rightarrow> False | Some w \<Rightarrow> py_eq v w) xs | _ \<Rightarrow> False)"
  by pat_completeness auto
termination
  apply (relation "measure (\<lambda>(a, b). size a)")
    apply simp
  subgoal for xs b ys z x y
    using size_mem[of x xs] by (auto dest: set_zip_leftD)
  subgoal for xs b ys z k v w
    using size_snd_mem[of k v xs] by auto
  done

section \<open>Version comparison\<close>

text \<open>
  \<^verbatim>\<open>int(s)\<close> on a string, as CPython parses it in base 10: whitespace is stripped
  at both ends, one sign may come first, and the rest is a non-empty run of decimal
  digits in which single underscores may stand between two digits. Everything else raises
  \<^verbatim>\<open>ValueError\<close>, which is \<open>None\<close> here. Characters are code points below 256; those
  that \<^verbatim>\<open>int\<close> strips are 9 to 13, 32, 133 and 160. A literal of more than
  \<^verbatim>\<open>sys.int_max_str_digits\<close> digits, 4300 unless it is set otherwise, which the updater
  does not do, raises \<^verbatim>\<open>ValueError\<close> as well; the digits are counted without the
  underscores and with the leading zeros.
\<close>

definition is_space :: "char \<Rightarrow> bool" where
  "is_space c = ((of_char c :: nat) \<in> set [9, 10, 11, 12, 13, 32, 133, 160])"

definition is_digit :: "char \<Rightarrow> bool" where
  "is_digit c = (48 \<le> (of_char c :: nat) \<and> (of_char c :: nat) \<le> 57)"

definition digit_val :: "char \<Rightarrow> nat" where
  "digit_val c = of_char c - 48"

definition strip :: "string \<Rightarrow> string" where
  "strip s = rev (dropWhile is_space (rev (dropWhile is_space s)))"

fun digits_acc :: "nat \<Rightarrow> string \<Rightarrow> nat option" where
  "digits_acc n [] = Some n"
| "digits_acc n (c # cs) =
     (if is_digit c then digits_acc (10 * n + digit_val c) cs
      else if c = CHR ''_'' then
        (case cs of
           [] \<Rightarrow> None
         | d # ds \<Rightarrow> if is_digit d then digits_acc (10 * n + digit_val d) ds else None)
      else None)"

fun py_digits :: "string \<Rightarrow> nat option" where
  "py_digits [] = None"
| "py_digits (c # cs) = (if is_digit c then digits_acc (digit_val c) cs else None)"

definition int_max_str_digits :: nat where
  "int_max_str_digits = 4300"

definition py_int :: "string \<Rightarrow> int option" where
  "py_int s =
     (case strip s of
        [] \<Rightarrow> None
      | c # cs \<Rightarrow>
          (let negative = (c = CHR ''-'');
               literal = (if c = CHR ''+'' \<or> c = CHR ''-'' then cs else c # cs)
           in if int_max_str_digits < length (filter is_digit literal) then None
              else map_option (\<lambda>n. if negative then - int n else int n) (py_digits literal)))"

text \<open>\<^verbatim>\<open>s.split(sep)\<close> with a separator of one character.\<close>

fun split_on :: "char \<Rightarrow> string \<Rightarrow> string list" where
  "split_on sep [] = [[]]"
| "split_on sep (c # cs) =
     (if c = sep then [] # split_on sep cs
      else (case split_on sep cs of
              [] \<Rightarrow> [[c]]
            | w # ws \<Rightarrow> (c # w) # ws))"

text \<open>Python's \<^verbatim>\<open>>\<close> on tuples of integers: the first differing position decides, and
  when there is none the longer tuple is the greater.\<close>

fun tuple_gt :: "int list \<Rightarrow> int list \<Rightarrow> bool" where
  "tuple_gt [] ys = False"
| "tuple_gt (x # xs) [] = True"
| "tuple_gt (x # xs) (y # ys) = (if x = y then tuple_gt xs ys else y < x)"

text \<open>
  \<^verbatim>\<open>tuple(map(int, v.split('.')))\<close>: \<open>None\<close> when it raises, which it does when
  \<open>v\<close> is no string (\<^verbatim>\<open>AttributeError\<close>) or a component is no integer
  (\<^verbatim>\<open>ValueError\<close>).
\<close>

definition int_tuple :: "pyval \<Rightarrow> int list option" where
  "int_tuple v = (case v of PStr s \<Rightarrow> those (map py_int (split_on CHR ''.'' s)) | _ \<Rightarrow> None)"

text \<open>
  \<^verbatim>\<open>is_newer_version\<close>: the bare \<^verbatim>\<open>except\<close> catches every exception of the two
  conversions and answers \<^verbatim>\<open>version_a != version_b\<close>.
\<close>

definition is_newer_version :: "pyval \<Rightarrow> pyval \<Rightarrow> bool" where
  "is_newer_version version_a version_b =
     (case int_tuple version_a of
        None \<Rightarrow> \<not> py_eq version_a version_b
      | Some ver_a \<Rightarrow>
          (case int_tuple version_b of
             None \<Rightarrow> \<not> py_eq version_a version_b
           | Some ver_b \<Rightarrow> tuple_gt ver_a ver_b))"

text \<open>
  The specification's side: a well-formed version string is a dot-separated sequence of
  non-empty runs of decimal digits; it is within the digit limit when no component has
  more digits than \<^verbatim>\<open>int\<close> reads; its tuple holds their decimal values; one tuple is
  lexicographically greater than another when, at the first position where they differ,
  its component is the greater.
\<close>

definition well_formed :: "string \<Rightarrow> bool" where
  "well_formed s = list_all (\<lambda>c. c \<noteq> [] \<and> list_all is_digit c) (split_on CHR ''.'' s)"

definition within_digit_limit :: "string \<Rightarrow> bool" where
  "within_digit_limit s =
     list_all (\<lambda>c. length c \<le> int_max_str_digits) (split_on CHR ''.'' s)"

definition dec_value :: "string \<Rightarrow> nat" where
  "dec_value c = foldl (\<lambda>n d. 10 * n + digit_val d) 0 c"

definition version_tuple :: "string \<Rightarrow> int list" where
  "version_tuple s = map (\<lambda>c. int (dec_value c)) (split_on CHR ''.'' s)"

definition lex_greater :: "int list \<Rightarrow> int list \<Rightarrow> bool" where
  "lex_greater xs ys =
     (\<exists>i \<in> {0 ..< min (length xs) (length ys)}. take i xs = take i ys \<and> ys ! i < xs ! i)"

text \<open>
  A component that is plainly no number: it holds a character that is neither a digit nor
  anything \<^verbatim>\<open>int\<close> tolerates (whitespace, a sign, an underscore). A component that is
  too long: it has more digits than \<^verbatim>\<open>int\<close> reads.
\<close>

definition non_numeric :: "string \<Rightarrow> bool" where
  "non_numeric c =
     (\<exists>ch \<in> set c. \<not> is_digit ch \<and> \<not> is_space ch \<and> ch \<notin> set ''+-_'')"

definition too_long :: "string \<Rightarrow> bool" where
  "too_long c = (int_max_str_digits < length (filter is_digit c))"

lemma digit_not_space: "is_digit c \<Longrightarrow> \<not> is_space c"
  by (auto simp: is_digit_def is_space_def)

lemma digit_not_sign: "is_digit c \<Longrightarrow> c \<noteq> CHR ''+'' \<and> c \<noteq> CHR ''-''"
  by (auto simp: is_digit_def)

lemma digits_acc_all_digits:
  "list_all is_digit cs \<Longrightarrow> digits_acc n cs = Some (foldl (\<lambda>n d. 10 * n + digit_val d) n cs)"
  by (induction cs arbitrary: n) auto

lemma strip_all_digits:
  assumes "c \<noteq> []" and "list_all is_digit c"
  shows "strip c = c"
proof -
  obtain x xs where c: "c = x # xs" using assms(1) by (cases c) auto
  with assms(2) have "\<not> is_space x" by (simp add: digit_not_space)
  then have front: "dropWhile is_space c = c" by (simp add: c)
  obtain ys y where r: "c = ys @ [y]" using assms(1) by (cases c rule: rev_cases) auto
  with assms(2) have "\<not> is_space y" by (simp add: digit_not_space)
  then have "dropWhile is_space (rev c) = rev c" by (simp add: r)
  with front show ?thesis by (simp add: strip_def)
qed

lemma py_int_all_digits:
  assumes "c \<noteq> []" and "list_all is_digit c" and "length c \<le> int_max_str_digits"
  shows "py_int c = Some (int (dec_value c))"
proof -
  obtain x xs where c: "c = x # xs" using assms(1) by (cases c) auto
  from assms(2) c have x: "is_digit x" and xs: "list_all is_digit xs" by simp_all
  have d: "py_digits (x # xs) = Some (dec_value c)"
    using x digits_acc_all_digits[OF xs, of "digit_val x"] by (simp add: c dec_value_def)
  have st: "strip c = x # xs" using strip_all_digits[OF assms(1,2)] c by simp
  have "filter is_digit c = c" using assms(2) by (simp add: list_all_iff)
  then have "filter is_digit (x # xs) = x # xs" by (simp add: c)
  then have n: "\<not> int_max_str_digits < length (filter is_digit (x # xs))"
    using assms(3) c by simp
  have "py_int c = (if int_max_str_digits < length (filter is_digit (x # xs)) then None
          else map_option int (py_digits (x # xs)))"
    using digit_not_sign[OF x] by (simp add: py_int_def st Let_def del: filter.simps py_digits.simps)
  then show ?thesis by (simp only: n d if_False option.map)
qed

lemma filter_digit_dropWhile_space:
  "filter is_digit (dropWhile is_space cs) = filter is_digit cs"
  by (induction cs) (auto simp: digit_not_space)

lemma filter_digit_strip: "filter is_digit (strip c) = filter is_digit c"
proof -
  have "filter is_digit (strip c) = rev (filter is_digit (dropWhile is_space (rev (dropWhile is_space c))))"
    by (simp add: strip_def rev_filter)
  also have "\<dots> = rev (filter is_digit (rev (dropWhile is_space c)))"
    by (simp only: filter_digit_dropWhile_space)
  also have "\<dots> = filter is_digit (dropWhile is_space c)"
    by (simp add: rev_filter)
  finally show ?thesis by (simp only: filter_digit_dropWhile_space)
qed

lemma py_int_too_long:
  assumes "too_long c"
  shows "py_int c = None"
proof (cases "strip c")
  case Nil
  then show ?thesis by (simp add: py_int_def)
next
  case (Cons x xs)
  have "filter is_digit (if x = CHR ''+'' \<or> x = CHR ''-'' then xs else x # xs)
        = filter is_digit (x # xs)"
    by (auto simp: is_digit_def)
  also have "\<dots> = filter is_digit c"
    using filter_digit_strip[of c] Cons by simp
  finally have "int_max_str_digits
      < length (filter is_digit (if x = CHR ''+'' \<or> x = CHR ''-'' then xs else x # xs))"
    using assms by (simp add: too_long_def)
  then show ?thesis
    unfolding py_int_def Cons by (simp add: Let_def)
qed

lemma split_on_no_sep: "sep \<notin> set cs \<Longrightarrow> split_on sep cs = [cs]"
  by (induction cs) auto

lemma split_on_append_sep:
  "sep \<notin> set xs \<Longrightarrow> split_on sep (xs @ sep # ys) = xs # split_on sep ys"
  by (induction xs) auto

lemma those_map_Some:
  "(\<And>x. x \<in> set xs \<Longrightarrow> f x = Some (g x)) \<Longrightarrow> those (map f xs) = Some (map g xs)"
  by (induction xs) auto

lemma those_map_None_iff:
  "those (map f xs) = None \<longleftrightarrow> (\<exists>x \<in> set xs. f x = None)"
  by (induction xs) (auto split: option.splits)

lemma int_tuple_well_formed:
  "well_formed s \<Longrightarrow> within_digit_limit s \<Longrightarrow> int_tuple (PStr s) = Some (version_tuple s)"
  unfolding int_tuple_def version_tuple_def well_formed_def within_digit_limit_def
  by (simp add: those_map_Some py_int_all_digits list_all_iff)

lemma lex_greater_Cons:
  "lex_greater (x # xs) (y # ys) = (if x = y then lex_greater xs ys else y < x)"
proof (cases "x = y")
  case True
  have "lex_greater (x # xs) (x # ys) = lex_greater xs ys"
  proof
    assume "lex_greater (x # xs) (x # ys)"
    then obtain i where i: "i < Suc (min (length xs) (length ys))"
      "take i (x # xs) = take i (x # ys)" "(x # ys) ! i < (x # xs) ! i"
      by (auto simp: lex_greater_def)
    then obtain j where "i = Suc j" by (cases i) auto
    with i show "lex_greater xs ys" by (auto simp: lex_greater_def)
  next
    assume "lex_greater xs ys"
    then obtain j where j: "j < min (length xs) (length ys)" "take j xs = take j ys" "ys ! j < xs ! j"
      by (auto simp: lex_greater_def)
    then have "Suc j \<in> {0 ..< min (length (x # xs)) (length (x # ys))}
       \<and> take (Suc j) (x # xs) = take (Suc j) (x # ys) \<and> (x # ys) ! Suc j < (x # xs) ! Suc j"
      by auto
    then show "lex_greater (x # xs) (x # ys)" unfolding lex_greater_def by blast
  qed
  with True show ?thesis by simp
next
  case False
  have "lex_greater (x # xs) (y # ys) = (y < x)"
  proof
    assume "lex_greater (x # xs) (y # ys)"
    then obtain i where i: "i < Suc (min (length xs) (length ys))"
      "take i (x # xs) = take i (y # ys)" "(y # ys) ! i < (x # xs) ! i"
      by (auto simp: lex_greater_def)
    with False have "i = 0" by (cases i) auto
    with i show "y < x" by simp
  next
    assume "y < x"
    then have "0 \<in> {0 ..< min (length (x # xs)) (length (y # ys))}
       \<and> take 0 (x # xs) = take 0 (y # ys) \<and> (y # ys) ! 0 < (x # xs) ! 0"
      by simp
    then show "lex_greater (x # xs) (y # ys)" unfolding lex_greater_def by blast
  qed
  with False show ?thesis by simp
qed

lemma lex_greater_Nil: "\<not> lex_greater [] ys" "\<not> lex_greater xs []"
  by (simp_all add: lex_greater_def)

lemma tuple_gt_iff:
  "tuple_gt xs ys = (lex_greater xs ys \<or> (length ys < length xs \<and> take (length ys) xs = ys))"
  by (induction xs ys rule: tuple_gt.induct) (auto simp: lex_greater_Cons lex_greater_Nil)

lemma digits_acc_bad_char:
  "ch \<in> set cs \<Longrightarrow> \<not> is_digit ch \<Longrightarrow> ch \<noteq> CHR ''_'' \<Longrightarrow> digits_acc n cs = None"
proof (induction n cs rule: digits_acc.induct)
  case (1 n)
  then show ?case by simp
next
  case (2 n c cs)
  show ?case
  proof (cases "is_digit c")
    case True
    with 2 show ?thesis by auto
  next
    case False
    show ?thesis
    proof (cases "c = CHR ''_''")
      case u: True
      show ?thesis
      proof (cases cs)
        case Nil
        with False u show ?thesis by simp
      next
        case (Cons d ds)
        show ?thesis
        proof (cases "is_digit d")
          case True
          with 2(2)[OF False u Cons True] 2(3-5) False u Cons show ?thesis by auto
        next
          case d: False
          with False u Cons show ?thesis by simp
        qed
      qed
    next
      case False
      with \<open>\<not> is_digit c\<close> show ?thesis by simp
    qed
  qed
qed

lemma py_digits_bad_char:
  "ch \<in> set cs \<Longrightarrow> \<not> is_digit ch \<Longrightarrow> ch \<noteq> CHR ''_'' \<Longrightarrow> py_digits cs = None"
  by (cases cs) (auto simp: digits_acc_bad_char)

lemma set_dropWhile_keeps: "x \<in> set xs \<Longrightarrow> \<not> P x \<Longrightarrow> x \<in> set (dropWhile P xs)"
  by (induction xs) auto

lemma strip_keeps: "ch \<in> set c \<Longrightarrow> \<not> is_space ch \<Longrightarrow> ch \<in> set (strip c)"
  by (simp add: strip_def set_dropWhile_keeps)

lemma py_int_non_numeric:
  assumes "non_numeric c"
  shows "py_int c = None"
proof -
  from assms obtain ch where ch: "ch \<in> set c" "\<not> is_digit ch" "\<not> is_space ch"
    "ch \<noteq> CHR ''+''" "ch \<noteq> CHR ''-''" "ch \<noteq> CHR ''_''"
    by (auto simp: non_numeric_def)
  then have m: "ch \<in> set (strip c)" by (simp add: strip_keeps)
  then obtain x xs where s: "strip c = x # xs" by (cases "strip c") auto
  have all: "py_digits (x # xs) = None"
    using m ch(2,6) py_digits_bad_char[of ch "x # xs"] by (simp add: s)
  have rest: "py_digits xs = None" if "x = CHR ''+'' \<or> x = CHR ''-''"
  proof -
    from that ch(4,5) m s have "ch \<in> set xs" by auto
    then show ?thesis using ch(2,6) by (rule py_digits_bad_char)
  qed
  show ?thesis
    using all rest by (auto simp: py_int_def s Let_def)
qed

section \<open>Properties of the version comparison\<close>

text \<open>
  Claim C1, as amended. For two well-formed version strings with the same number of
  components, none of them of more than 4300 digits, \<open>is_newer_version\<close> is true exactly
  when the integer tuple of the first is lexicographically greater than the integer tuple
  of the second. In particular the comparison is numeric: \<open>is_newer_version\<close> of "1.10.0"
  and "1.2.0" is true and of "1.2.0" and "1.10.0" is false; of "2.0.0" and "1.9.9" it is
  true, and of "1.0.0" and "1.0.0" it is false.
\<close>

theorem is_newer_version_tuple_order:
  assumes "well_formed a" and "well_formed b"
    and "within_digit_limit a" and "within_digit_limit b"
    and "length (split_on CHR ''.'' a) = length (split_on CHR ''.'' b)"
  shows "(is_newer_version (PStr a) (PStr b) = lex_greater (version_tuple a) (version_tuple b))
    \<and> is_newer_version (PStr ''1.10.0'') (PStr ''1.2.0'')
    \<and> \<not> is_newer_version (PStr ''1.2.0'') (PStr ''1.10.0'')
    \<and> is_newer_version (PStr ''2.0.0'') (PStr ''1.9.9'')
    \<and> \<not> is_newer_version (PStr ''1.0.0'') (PStr ''1.0.0'')"
proof -
  have "length (version_tuple a) = length (version_tuple b)"
    using assms(5) by (simp add: version_tuple_def)
  then have general:
    "is_newer_version (PStr a) (PStr b) = lex_greater (version_tuple a) (version_tuple b)"
    using int_tuple_well_formed[OF assms(1,3)] int_tuple_well_formed[OF assms(2,4)]
    by (simp add: is_newer_version_def tuple_gt_iff)
  have e1: "is_newer_version (PStr ''1.10.0'') (PStr ''1.2.0'')" by code_simp
  have e2: "\<not> is_newer_version (PStr ''1.2.0'') (PStr ''1.10.0'')" by code_simp
  have e3: "is_newer_version (PStr ''2.0.0'') (PStr ''1.9.9'')" by code_simp
  have e4: "\<not> is_newer_version (PStr ''1.0.0'') (PStr ''1.0.0'')" by code_simp
  from general e1 e2 e3 e4 show ?thesis by blast
qed

theorem is_newer_version_tuple_order_witness:
  "well_formed ''2.0.0'' \<and> well_formed ''1.9.9''
   \<and> within_digit_limit ''2.0.0'' \<and> within_digit_limit ''1.9.9''
   \<and> length (split_on CHR ''.'' ''2.0.0'') = length (split_on CHR ''.'' ''1.9.9'')
   \<and> version_tuple ''2.0.0'' = [2, 0, 0] \<and> version_tuple ''1.9.9'' = [1, 9, 9]
   \<and> lex_greater (version_tuple ''2.0.0'') (version_tuple ''1.9.9'')
   \<and> is_newer_version (PStr ''2.0.0'') (PStr ''1.9.9'')"
proof -
  have h1: "well_formed ''2.0.0''" by code_simp
  have h2: "well_formed ''1.9.9''" by code_simp
  have l1: "within_digit_limit ''2.0.0''" by code_simp
  have l2: "within_digit_limit ''1.9.9''" by code_simp
  have h3: "length (split_on CHR ''.'' ''2.0.0'') = length (split_on CHR ''.'' ''1.9.9'')"
    by code_simp
  have t1: "version_tuple ''2.0.0'' = [2, 0, 0]" by code_simp
  have t2: "version_tuple ''1.9.9'' = [1, 9, 9]" by code_simp
  have g: "lex_greater (version_tuple ''2.0.0'') (version_tuple ''1.9.9'')" by code_simp
  from is_newer_version_tuple_order[OF h1 h2 l1 l2 h3] g
  have "is_newer_version (PStr ''2.0.0'') (PStr ''1.9.9'')" by blast
  with h1 h2 l1 l2 h3 t1 t2 g show ?thesis by blast
qed

text \<open>
  Claim C1 as the specification states it says that \<open>is_newer_version\<close> of "1.2.0" and
  "1.10.0" is true. The code compares the components as integers, and 2 is less than 10.
  It also sets no bound on the components: for "1." followed by 4301 zeros against "2.0",
  both well-formed with two components and the first tuple not the greater, \<^verbatim>\<open>int\<close>
  raises on the long component and the fallback answers true.
\<close>

theorem is_newer_version_example_counterexample:
  "\<not> is_newer_version (PStr ''1.2.0'') (PStr ''1.10.0'')
   \<and> well_formed (''1.'' @ replicate 4301 CHR ''0'') \<and> well_formed ''2.0''
   \<and> length (split_on CHR ''.'' (''1.'' @ replicate 4301 CHR ''0''))
       = length (split_on CHR ''.'' ''2.0'')
   \<and> \<not> lex_greater (version_tuple (''1.'' @ replicate 4301 CHR ''0'')) (version_tuple ''2.0'')
   \<and> is_newer_version (PStr (''1.'' @ replicate 4301 CHR ''0'')) (PStr ''2.0'')"
proof -
  let ?z = "replicate 4301 CHR ''0''"
  have e: "\<not> is_newer_version (PStr ''1.2.0'') (PStr ''1.10.0'')" by code_simp
  have sp: "split_on CHR ''.'' (''1.'' @ ?z) = [''1'', ?z]"
    by (simp add: split_on_no_sep)
  have sb: "split_on CHR ''.'' ''2.0'' = [''2'', ''0'']" by code_simp
  have wa: "well_formed (''1.'' @ ?z)"
    unfolding well_formed_def sp by (simp add: list_all_iff is_digit_def)
  have wb: "well_formed ''2.0''" by code_simp
  have len: "length (split_on CHR ''.'' (''1.'' @ ?z)) = length (split_on CHR ''.'' ''2.0'')"
    by (simp only: sp sb) simp
  have one: "dec_value ''1'' = 1" by code_simp
  have tb: "version_tuple ''2.0'' = [2, 0]" by code_simp
  have ng: "\<not> lex_greater (version_tuple (''1.'' @ ?z)) (version_tuple ''2.0'')"
    unfolding tb by (simp add: version_tuple_def sp one lex_greater_Cons)
  have "too_long ?z"
    by (simp add: too_long_def int_max_str_digits_def is_digit_def)
  then have "py_int ?z = None" by (rule py_int_too_long)
  then have "int_tuple (PStr (''1.'' @ ?z)) = None"
    unfolding int_tuple_def by (simp only: pyval.case sp those_map_None_iff) simp
  then have nw: "is_newer_version (PStr (''1.'' @ ?z)) (PStr ''2.0'')"
    by (simp add: is_newer_version_def)
  from e wa wb len ng nw show ?thesis by blast
qed

text \<open>
  Claim C5, as amended. For two well-formed version strings with unequal numbers of
  components, none of them of more than 4300 digits, whose integer components agree up to
  the length of the shorter one (such as "1.2" and "1.2.0"), the longer one is the newer:
  \<open>is_newer_version\<close> is true with the longer string first and false with the shorter
  string first.
\<close>

theorem is_newer_version_longer_wins:
  assumes "well_formed a" and "well_formed b"
    and "within_digit_limit a" and "within_digit_limit b"
    and "length (version_tuple a) < length (version_tuple b)"
    and "take (length (version_tuple a)) (version_tuple b) = version_tuple a"
  shows "is_newer_version (PStr b) (PStr a) \<and> \<not> is_newer_version (PStr a) (PStr b)"
proof -
  have nl: "\<not> lex_greater (version_tuple a) (version_tuple b)"
  proof
    assume "lex_greater (version_tuple a) (version_tuple b)"
    then obtain i where i: "i < length (version_tuple a)"
       "version_tuple b ! i < version_tuple a ! i"
      by (auto simp: lex_greater_def)
    have "version_tuple a ! i = take (length (version_tuple a)) (version_tuple b) ! i"
      using assms(6) by simp
    also have "\<dots> = version_tuple b ! i" using i(1) by simp
    finally show False using i(2) by simp
  qed
  show ?thesis
    using int_tuple_well_formed[OF assms(1,3)] int_tuple_well_formed[OF assms(2,4)] assms(5,6) nl
    by (simp add: is_newer_version_def tuple_gt_iff)
qed

theorem is_newer_version_longer_wins_witness:
  "well_formed ''1.2'' \<and> well_formed ''1.2.0''
   \<and> within_digit_limit ''1.2'' \<and> within_digit_limit ''1.2.0''
   \<and> version_tuple ''1.2'' = [1, 2] \<and> version_tuple ''1.2.0'' = [1, 2, 0]
   \<and> is_newer_version (PStr ''1.2.0'') (PStr ''1.2'')
   \<and> \<not> is_newer_version (PStr ''1.2'') (PStr ''1.2.0'')"
proof -
  have h1: "well_formed ''1.2''" by code_simp
  have h2: "well_formed ''1.2.0''" by code_simp
  have l1: "within_digit_limit ''1.2''" by code_simp
  have l2: "within_digit_limit ''1.2.0''" by code_simp
  have t1: "version_tuple ''1.2'' = [1, 2]" by code_simp
  have t2: "version_tuple ''1.2.0'' = [1, 2, 0]" by code_simp
  have h3: "length (version_tuple ''1.2'') < length (version_tuple ''1.2.0'')"
    by (simp add: t1 t2)
  have h4: "take (length (version_tuple ''1.2'')) (version_tuple ''1.2.0'') = version_tuple ''1.2''"
    by (simp add: t1 t2)
  from is_newer_version_longer_wins[OF h1 h2 l1 l2 h3 h4] h1 h2 l1 l2 t1 t2 show ?thesis by blast
qed

text \<open>
  Claim C5 as the specification states it says that "1.2" and "1.2.0" are treated as equal,
  \<open>is_newer_version\<close> being false in both orders. With the longer string first it is true.
  And where a component has more than 4300 digits, as in 4301 ones against the same
  followed by ".0", it is true in both orders: \<^verbatim>\<open>int\<close> raises and the strings differ.
\<close>

theorem is_newer_version_unequal_length_counterexample:
  "is_newer_version (PStr ''1.2.0'') (PStr ''1.2'')
   \<and> well_formed (replicate 4301 CHR ''1'') \<and> well_formed (replicate 4301 CHR ''1'' @ ''.0'')
   \<and> version_tuple (replicate 4301 CHR ''1'' @ ''.0'')
       = version_tuple (replicate 4301 CHR ''1'') @ [0]
   \<and> is_newer_version (PStr (replicate 4301 CHR ''1'' @ ''.0'')) (PStr (replicate 4301 CHR ''1''))
   \<and> is_newer_version (PStr (replicate 4301 CHR ''1'')) (PStr (replicate 4301 CHR ''1'' @ ''.0''))"
proof -
  let ?r = "replicate 4301 CHR ''1''"
  have e: "is_newer_version (PStr ''1.2.0'') (PStr ''1.2'')" by code_simp
  have nd: "CHR ''.'' \<notin> set ?r" by simp
  have sa: "split_on CHR ''.'' ?r = [?r]" using nd by (rule split_on_no_sep)
  have s0: "split_on CHR ''.'' ''0'' = [''0'']" by code_simp
  have sb: "split_on CHR ''.'' (?r @ ''.0'') = [?r, ''0'']"
    using split_on_append_sep[OF nd, of "''0''"] by (simp only: s0)
  have dr: "list_all is_digit ?r" by (simp add: list_all_iff is_digit_def)
  have ne: "?r \<noteq> []" by simp
  have d0: "list_all is_digit ''0''" by code_simp
  have wa: "well_formed ?r" unfolding well_formed_def sa using dr ne by simp
  have wb: "well_formed (?r @ ''.0'')" unfolding well_formed_def sb using dr ne d0 by simp
  have z: "dec_value ''0'' = 0" by code_simp
  have vt: "version_tuple (?r @ ''.0'') = version_tuple ?r @ [0]"
    unfolding version_tuple_def sa sb by (simp add: z)
  have "too_long ?r"
    by (simp add: too_long_def int_max_str_digits_def is_digit_def)
  then have p: "py_int ?r = None" by (rule py_int_too_long)
  have ia: "int_tuple (PStr ?r) = None"
    unfolding int_tuple_def by (simp only: pyval.case sa those_map_None_iff) (simp add: p)
  have ib: "int_tuple (PStr (?r @ ''.0'')) = None"
    unfolding int_tuple_def by (simp only: pyval.case sb those_map_None_iff) (simp add: p)
  have n1: "is_newer_version (PStr (?r @ ''.0'')) (PStr ?r)"
    by (simp add: is_newer_version_def ib)
  have n2: "is_newer_version (PStr ?r) (PStr (?r @ ''.0''))"
    by (simp add: is_newer_version_def ia)
  from e wa wb vt n1 n2 show ?thesis by blast
qed

text \<open>
  Claim C6. When a component of either version string is not accepted by \<^verbatim>\<open>int\<close>,
  as is every component that is empty, plainly no number or too long,
  \<open>is_newer_version\<close> answers by string inequality.
\<close>

theorem is_newer_version_fallback:
  assumes "\<exists>c \<in> set (split_on CHR ''.'' a) \<union> set (split_on CHR ''.'' b).
             py_int c = None \<or> non_numeric c \<or> too_long c"
  shows "is_newer_version (PStr a) (PStr b) = (a \<noteq> b)"
proof -
  from assms have "\<exists>c \<in> set (split_on CHR ''.'' a) \<union> set (split_on CHR ''.'' b). py_int c = None"
    using py_int_non_numeric py_int_too_long by blast
  then have "int_tuple (PStr a) = None \<or> int_tuple (PStr b) = None"
    by (auto simp: int_tuple_def those_map_None_iff)
  then show ?thesis
    by (auto simp: is_newer_version_def split: option.splits)
qed

theorem is_newer_version_fallback_witness:
  "non_numeric ''x'' \<and> ''x'' \<in> set (split_on CHR ''.'' ''1.x'')
   \<and> py_int [] = None \<and> [] \<in> set (split_on CHR ''.'' ''1..0'')
   \<and> py_int [CHR 0x1C, CHR ''1''] = None
   \<and> is_newer_version (PStr ''1.x'') (PStr ''1.0'')
   \<and> \<not> is_newer_version (PStr ''1.x'') (PStr ''1.x'')
   \<and> is_newer_version (PStr ''1.0'') (PStr ''1..0'')
   \<and> is_newer_version (PStr ''1'') (PStr [CHR 0x1C, CHR ''1''])"
proof -
  have p: "non_numeric ''x''" by code_simp
  have m: "''x'' \<in> set (split_on CHR ''.'' ''1.x'')" by code_simp
  have q: "py_int [] = None" by code_simp
  have n: "[] \<in> set (split_on CHR ''.'' ''1..0'')" by code_simp
  have u: "py_int [CHR 0x1C, CHR ''1''] = None" by code_simp
  have v: "[CHR 0x1C, CHR ''1''] \<in> set (split_on CHR ''.'' [CHR 0x1C, CHR ''1''])" by code_simp
  from p m have h: "\<exists>c \<in> set (split_on CHR ''.'' ''1.x'') \<union> set (split_on CHR ''.'' b).
      py_int c = None \<or> non_numeric c \<or> too_long c" for b
    by blast
  from q n have k: "\<exists>c \<in> set (split_on CHR ''.'' a) \<union> set (split_on CHR ''.'' ''1..0'').
      py_int c = None \<or> non_numeric c \<or> too_long c" for a
    by blast
  from u v have w: "\<exists>c \<in> set (split_on CHR ''.'' a) \<union> set (split_on CHR ''.'' [CHR 0x1C, CHR ''1'']).
      py_int c = None \<or> non_numeric c \<or> too_long c" for a
    by blast
  have "is_newer_version (PStr ''1.x'') (PStr ''1.0'') = (''1.x'' \<noteq> ''1.0'')"
    by (rule is_newer_version_fallback[OF h])
  moreover have "is_newer_version (PStr ''1.x'') (PStr ''1.x'') = (''1.x'' \<noteq> ''1.x'')"
    by (rule is_newer_version_fallback[OF h])
  moreover have "is_newer_version (PStr ''1.0'') (PStr ''1..0'') = (''1.0'' \<noteq> ''1..0'')"
    by (rule is_newer_version_fallback[OF k])
  moreover have "is_newer_version (PStr ''1'') (PStr [CHR 0x1C, CHR ''1''])
       = (''1'' \<noteq> [CHR 0x1C, CHR ''1''])"
    by (rule is_newer_version_fallback[OF w])
  ultimately show ?thesis using p m q n u by simp
qed

section \<open>Merge-install\<close>

text \<open>
  The exceptions the updater can meet. Each handler of the source catches
  \<^verbatim>\<open>Exception\<close> (or everything), so which exception it was only shows in the message.
\<close>

datatype exn =
    KeyError string
  | AttributeError
  | TypeError
  | ValueError
  | HTTPError nat
  | RequestError string
  | NotADirectoryError
  | IsADirectoryError
  | FileNotFoundError
  | OSError string
  | ArchiveError string
  | JSONDecodeError string

text \<open>
  A directory tree: a file with its content, or a directory with its entries in the order
  \<^verbatim>\<open>os.listdir\<close> gives them. Names are compared exactly, as a case-sensitive file
  system does; there are no symbolic links (\<^verbatim>\<open>extractall\<close> makes none), and
  permissions and the disk's capacity are not modelled.
\<close>

datatype node = File string | Dir "(string \<times> node) list"

text \<open>
  \<^verbatim>\<open>str.lower\<close> on code points below 256: the letters A to Z and the capital letters of
  Latin-1 move up by 32.
\<close>

definition lower_char :: "char \<Rightarrow> char" where
  "lower_char c =
     (let n = (of_char c :: nat) in
      if (65 \<le> n \<and> n \<le> 90) \<or> (192 \<le> n \<and> n \<le> 222 \<and> n \<noteq> 215) then char_of (n + 32) else c)"

definition lower :: "string \<Rightarrow> string" where
  "lower s = map lower_char s"

text \<open>The test of \<^verbatim>\<open>copy_with_overwrite\<close> for the updater's own files.\<close>

definition is_updater_name :: "string \<Rightarrow> bool" where
  "is_updater_name item = (lower item = ''updater.exe'' \<or> lower item = ''updater.py'')"

text \<open>Writing an entry of a directory: an entry of that name is replaced, a new one is added.\<close>

fun put_child :: "string \<Rightarrow> node \<Rightarrow> (string \<times> node) list \<Rightarrow> (string \<times> node) list" where
  "put_child k v [] = [(k, v)]"
| "put_child k v ((k', v') # es) = (if k' = k then (k, v) # es else (k', v') # put_child k v es)"

text \<open>
  \<^verbatim>\<open>shutil.copy2(src_path, dst_path)\<close> for a source file with the given content, where
  \<open>dst_dir\<close> is what stands at \<^verbatim>\<open>dst_dir\<close> and \<^verbatim>\<open>dst_path\<close> is \<open>item\<close> inside
  it. When \<^verbatim>\<open>dst_path\<close> is a directory, \<^verbatim>\<open>copy2\<close> copies into it under the
  source's base name, which is \<open>item\<close> again. Opening a path below a regular file, or a
  directory, for writing raises.
\<close>

definition copy2 :: "string \<Rightarrow> string \<Rightarrow> node \<Rightarrow> exn + node" where
  "copy2 content item dst_dir =
     (case dst_dir of
        File _ \<Rightarrow> Inl NotADirectoryError
      | Dir es \<Rightarrow>
          (case map_of es item of
             None \<Rightarrow> Inr (Dir (put_child item (File content) es))
           | Some (File _) \<Rightarrow> Inr (Dir (put_child item (File content) es))
           | Some (Dir sub) \<Rightarrow>
               (case map_of sub item of
                  Some (Dir _) \<Rightarrow> Inl IsADirectoryError
                | _ \<Rightarrow> Inr (Dir (put_child item (Dir (put_child item (File content) sub)) es)))))"

text \<open>
  \<^verbatim>\<open>copy_with_overwrite(src_dir, dst_dir)\<close>: the first argument lists \<^verbatim>\<open>src_dir\<close>, the
  second is what stands at \<^verbatim>\<open>dst_dir\<close>. The result is the exception that stopped the
  loop, if any, and the destination as it is then. For a source directory,
  \<^verbatim>\<open>os.path.exists(dst_path)\<close> is false below a regular file and
  \<^verbatim>\<open>os.makedirs\<close> raises there; where \<^verbatim>\<open>dst_path\<close> exists, as a directory or as a
  file, the source recurses into it as it is.
\<close>

fun copy_with_overwrite :: "(string \<times> node) list \<Rightarrow> node \<Rightarrow> exn option \<times> node" where
  "copy_with_overwrite [] dst_dir = (None, dst_dir)"
| "copy_with_overwrite ((item, File content) # rest) dst_dir =
     (if is_updater_name item then copy_with_overwrite rest dst_dir
      else (case copy2 content item dst_dir of
              Inl e \<Rightarrow> (Some e, dst_dir)
            | Inr dst_dir' \<Rightarrow> copy_with_overwrite rest dst_dir'))"
| "copy_with_overwrite ((item, Dir children) # rest) dst_dir =
     (if is_updater_name item then copy_with_overwrite rest dst_dir
      else (case dst_dir of
              File _ \<Rightarrow> (Some NotADirectoryError, dst_dir)
            | Dir es \<Rightarrow>
                (case copy_with_overwrite children
                        (case map_of es item of None \<Rightarrow> Dir [] | Some sub \<Rightarrow> sub) of
                   (Some e, sub') \<Rightarrow> (Some e, Dir (put_child item sub' es))
                 | (None, sub') \<Rightarrow> copy_with_overwrite rest (Dir (put_child item sub' es)))))"

text \<open>What stands at a relative path below a node.\<close>

fun lookup :: "node \<Rightarrow> string list \<Rightarrow> node option" where
  "lookup n [] = Some n"
| "lookup (File _) (k # ks) = None"
| "lookup (Dir es) (k # ks) = (case map_of es k of None \<Rightarrow> None | Some sub \<Rightarrow> lookup sub ks)"

lemma map_of_put_child: "map_of (put_child k v es) = (map_of es)(k \<mapsto> v)"
  by (induction es) (auto simp: fun_eq_iff)

lemma lookup_empty_Dir: "ks \<noteq> [] \<Longrightarrow> lookup (Dir []) ks = None"
  by (cases ks) auto

lemma copy2_keeps_updater_paths:
  assumes "copy2 content item dst = Inr dst'" and "\<not> is_updater_name item"
    and "\<exists>k \<in> set p. is_updater_name k"
  shows "lookup dst' p = lookup dst p"
proof -
  from assms(3) obtain k ks where p: "p = k # ks" by (cases p) auto
  show ?thesis
  proof (cases "k = item")
    case False
    with assms(1) show ?thesis
      by (auto simp: copy2_def p map_of_put_child split: node.splits option.splits)
  next
    case True
    with assms(2,3) p have ks: "\<exists>k \<in> set ks. is_updater_name k" by auto
    then obtain k2 ks2 where ks2: "ks = k2 # ks2" by (cases ks) auto
    show ?thesis
    proof (cases "k2 = item")
      case False
      with assms(1) True show ?thesis
        by (auto simp: copy2_def p ks2 map_of_put_child split: node.splits option.splits)
    next
      case k2: True
      with assms(2) ks ks2 have "ks2 \<noteq> []" by auto
      then obtain k3 ks3 where "ks2 = k3 # ks3" by (cases ks2) auto
      with assms(1) True k2 show ?thesis
        by (auto simp: copy2_def p ks2 map_of_put_child split: node.splits option.splits)
    qed
  qed
qed

lemma copy_with_overwrite_keeps_updater_paths:
  "\<exists>k \<in> set p. is_updater_name k \<Longrightarrow> lookup (snd (copy_with_overwrite src dst)) p = lookup dst p"
proof (induction src dst arbitrary: p rule: copy_with_overwrite.induct)
  case (1 dst_dir)
  then show ?case by simp
next
  case (2 item content rest dst_dir)
  show ?case
  proof (cases "is_updater_name item")
    case True
    with 2 show ?thesis by simp
  next
    case False
    show ?thesis
    proof (cases "copy2 content item dst_dir")
      case (Inl e)
      with False show ?thesis by simp
    next
      case (Inr d1)
      have "lookup (snd (copy_with_overwrite rest d1)) p = lookup d1 p"
        using 2(2)[OF False Inr] 2(3) by simp
      also have "\<dots> = lookup dst_dir p"
        using copy2_keeps_updater_paths[OF Inr False 2(3)] .
      finally show ?thesis using False Inr by simp
    qed
  qed
next
  case (3 item children rest dst_dir)
  show ?case
  proof (cases "is_updater_name item")
    case True
    with 3 show ?thesis by simp
  next
    case False
    show ?thesis
    proof (cases dst_dir)
      case (File c)
      with False show ?thesis by simp
    next
      case (Dir es)
      define sub0 where "sub0 = (case map_of es item of None \<Rightarrow> Dir [] | Some sub \<Rightarrow> sub)"
      obtain e sub' where r: "copy_with_overwrite children sub0 = (e, sub')"
        by (cases "copy_with_overwrite children sub0") auto
      have ih1: "lookup sub' q = lookup sub0 q" if "\<exists>k \<in> set q. is_updater_name k" for q
        using 3(2)[OF False Dir, of q] that r by (simp add: sub0_def)
      have step: "lookup (Dir (put_child item sub' es)) p = lookup dst_dir p"
      proof -
        from 3(4) obtain k ks where p: "p = k # ks" by (cases p) auto
        show ?thesis
        proof (cases "k = item")
          case k: True
          with False 3(4) p have ks: "\<exists>k \<in> set ks. is_updater_name k" by auto
          then have "ks \<noteq> []" by auto
          then show ?thesis
            using ih1[OF ks] k
            by (auto simp: p Dir map_of_put_child sub0_def lookup_empty_Dir split: option.splits)
        next
          case False
          then show ?thesis by (simp add: p Dir map_of_put_child)
        qed
      qed
      show ?thesis
      proof (cases e)
        case None
        have "lookup (snd (copy_with_overwrite rest (Dir (put_child item sub' es)))) p
              = lookup (Dir (put_child item sub' es)) p"
          using 3(3)[OF False Dir] r None 3(4) by (auto simp: sub0_def)
        with step show ?thesis using False Dir r None by (simp add: sub0_def)
      next
        case (Some err)
        with step show ?thesis using False Dir r by (simp add: sub0_def)
      qed
    qed
  qed
qed

text \<open>
  A source tree without its entries named like the updater, at every depth: what
  "skipped" means for the whole tree.
\<close>

fun prune :: "(string \<times> node) list \<Rightarrow> (string \<times> node) list" where
  "prune [] = []"
| "prune ((item, File content) # rest) =
     (if is_updater_name item then prune rest else (item, File content) # prune rest)"
| "prune ((item, Dir children) # rest) =
     (if is_updater_name item then prune rest else (item, Dir (prune children)) # prune rest)"

lemma copy_with_overwrite_prune:
  "copy_with_overwrite (prune src) dst = copy_with_overwrite src dst"
proof (induction src dst rule: copy_with_overwrite.induct)
  case (1 dst_dir)
  then show ?case by simp
next
  case (2 item content rest dst_dir)
  then show ?case by (auto split: sum.splits)
next
  case (3 item children rest dst_dir)
  show ?case
  proof (cases "is_updater_name item")
    case True
    with 3 show ?thesis by simp
  next
    case False
    show ?thesis
    proof (cases dst_dir)
      case (File c)
      with False show ?thesis by simp
    next
      case (Dir es)
      define sub0 where "sub0 = (case map_of es item of None \<Rightarrow> Dir [] | Some sub \<Rightarrow> sub)"
      obtain e sub' where r: "copy_with_overwrite children sub0 = (e, sub')"
        by (cases "copy_with_overwrite children sub0") auto
      have ih1: "copy_with_overwrite (prune children) sub0 = (e, sub')"
        using 3(2)[OF False Dir] r by (simp add: sub0_def)
      show ?thesis
      proof (cases e)
        case None
        have "copy_with_overwrite (prune rest) (Dir (put_child item sub' es))
              = copy_with_overwrite rest (Dir (put_child item sub' es))"
          using 3(3)[OF False Dir] r None by (auto simp: sub0_def)
        then show ?thesis using False Dir r ih1 None by (simp add: sub0_def)
      next
        case (Some err)
        then show ?thesis using False Dir r ih1 by (simp add: sub0_def)
      qed
    qed
  qed
qed

text \<open>
  Claim C2. Merging a source tree gives the same result as merging the tree without its
  entries that are named, in any letter case, \<open>updater.exe\<close> or \<open>updater.py\<close>, at every
  depth; and whatever stands in the destination at a path whose last name is such a name
  stands there unchanged afterwards, whether the merge ran to its end or stopped on an
  exception.
\<close>

theorem copy_with_overwrite_skips_updater:
  assumes "p \<noteq> []" and "is_updater_name (last p)"
  shows "copy_with_overwrite (prune src) dst = copy_with_overwrite src dst
    \<and> lookup (snd (copy_with_overwrite src dst)) p = lookup dst p"
proof -
  from assms have "\<exists>k \<in> set p. is_updater_name k"
    using last_in_set by blast
  then show ?thesis
    by (simp add: copy_with_overwrite_prune copy_with_overwrite_keeps_updater_paths)
qed

theorem copy_with_overwrite_skips_updater_witness:
  "[''lib'', ''Updater.PY''] \<noteq> [] \<and> is_updater_name (last [''lib'', ''Updater.PY''])
   \<and> copy_with_overwrite
        [(''lib'', Dir [(''Updater.PY'', File ''new''), (''x'', File ''new'')]),
         (''updater.exe'', File ''new'')]
        (Dir [(''updater.exe'', File ''old''),
              (''lib'', Dir [(''Updater.PY'', File ''old''), (''x'', File ''old'')])])
      = (None, Dir [(''updater.exe'', File ''old''),
                    (''lib'', Dir [(''Updater.PY'', File ''old''), (''x'', File ''new'')])])
   \<and> lookup (snd (copy_with_overwrite
        [(''lib'', Dir [(''Updater.PY'', File ''new''), (''x'', File ''new'')]),
         (''updater.exe'', File ''new'')]
        (Dir [(''updater.exe'', File ''old''),
              (''lib'', Dir [(''Updater.PY'', File ''old''), (''x'', File ''old'')])])))
        [''lib'', ''Updater.PY'']
      = Some (File ''old'')"
proof -
  have h1: "[''lib'', ''Updater.PY''] \<noteq> []" by simp
  have h2: "is_updater_name (last [''lib'', ''Updater.PY''])" by code_simp
  have run: "copy_with_overwrite
        [(''lib'', Dir [(''Updater.PY'', File ''new''), (''x'', File ''new'')]),
         (''updater.exe'', File ''new'')]
        (Dir [(''updater.exe'', File ''old''),
              (''lib'', Dir [(''Updater.PY'', File ''old''), (''x'', File ''old'')])])
      = (None, Dir [(''updater.exe'', File ''old''),
                    (''lib'', Dir [(''Updater.PY'', File ''old''), (''x'', File ''new'')])])"
    by code_simp
  have old: "lookup (Dir [(''updater.exe'', File ''old''),
              (''lib'', Dir [(''Updater.PY'', File ''old''), (''x'', File ''old'')])])
        [''lib'', ''Updater.PY''] = Some (File ''old'')"
    by code_simp
  from copy_with_overwrite_skips_updater[OF h1 h2] old h1 h2 run show ?thesis
    by metis
qed

section \<open>The download thread\<close>

text \<open>
  The texts the status label can show. A text built with an f-string keeps the value it
  is built from: \<open>Downloading n\<close> is the text made from \<^verbatim>\<open>downloaded = n\<close> bytes,
  \<open>ErrorText e\<close> the one made from the exception \<open>e\<close>.
\<close>

datatype status_text =
    CheckingForUpdates
  | UpdateAvailable pyval
  | LatestVersion pyval
  | ErrorChecking
  | StartingDownload
  | Downloading nat
  | DownloadCompleted
  | ErrorText exn
  | InstallingUpdate
  | DownloadFailed
  | UpdateInstalled
  | InstallationFailed

text \<open>
  The signals of \<^verbatim>\<open>DownloadThread\<close>. \<open>ProgressSignal downloaded total_size\<close> is
  \<^verbatim>\<open>progress_signal.emit(int((downloaded / total_size) * 100))\<close>: it keeps the two
  operands, and \<open>percent\<close> below gives the integer emitted. The second argument of
  \<^verbatim>\<open>completed_signal\<close> is the download path or the exception's text.
\<close>

datatype payload = DownloadPath | ErrorMessage exn

datatype event =
    StatusSignal status_text
  | ProgressSignal nat int
  | CompletedSignal bool payload

text \<open>
  What the network and the file system do is the thread's environment. A response has its
  status code, its \<^verbatim>\<open>content-length\<close> header if any, the chunks \<^verbatim>\<open>iter_content\<close>
  yields, and the exception it raises after the last of them, if any. \<open>get_result\<close> is
  the outcome of \<^verbatim>\<open>requests.get\<close>, \<open>open_error\<close> the exception of \<^verbatim>\<open>open\<close>, and
  \<open>write_error n\<close> the exception of the \<^verbatim>\<open>write\<close> that would bring the file to
  \<open>n\<close> bytes.
\<close>

record response =
  status_code :: nat
  content_length :: "string option"
  body :: "string list"
  body_error :: "exn option"

record download_env =
  get_result :: "exn + response"
  open_error :: "exn option"
  write_error :: "nat \<Rightarrow> exn option"

text \<open>\<^verbatim>\<open>Response.raise_for_status\<close> of the requests library raises for the status codes
  400 to 599 and for no other.\<close>

definition raise_for_status :: "nat \<Rightarrow> exn option" where
  "raise_for_status code = (if 400 \<le> code \<and> code < 600 then Some (HTTPError code) else None)"

text \<open>
  The loop over the chunks, from \<^verbatim>\<open>downloaded\<close> bytes and the file's content so far:
  the signals emitted, the file's content at the end, and the exception of a
  \<^verbatim>\<open>write\<close> if one stopped the loop. Empty chunks are passed over.
\<close>

fun write_chunks ::
  "int \<Rightarrow> (nat \<Rightarrow> exn option) \<Rightarrow> string list \<Rightarrow> nat \<Rightarrow> string \<Rightarrow> event list \<times> string \<times> exn option" where
  "write_chunks total_size werr [] downloaded f = ([], f, None)"
| "write_chunks total_size werr (chunk # chunks) downloaded f =
     (if chunk = [] then write_chunks total_size werr chunks downloaded f
      else
        (case werr (downloaded + length chunk) of
           Some e \<Rightarrow> ([], f, Some e)
         | None \<Rightarrow>
             (case write_chunks total_size werr chunks (downloaded + length chunk) (f @ chunk) of
                (evs, f', err) \<Rightarrow>
                  ((if total_size \<noteq> 0 then [ProgressSignal (downloaded + length chunk) total_size] else [])
                     @ StatusSignal (Downloading (downloaded + length chunk)) # evs, f', err))))"

text \<open>
  The body of the \<^verbatim>\<open>try\<close> after its first signal: the signals emitted, the
  destination file (\<open>None\<close> when there is none), and the exception raised, if any. A
  missing \<^verbatim>\<open>content-length\<close> counts as 0; one that \<^verbatim>\<open>int\<close> refuses raises before
  the file is opened. Opening the file for writing empties it.
\<close>

definition run_body :: "download_env \<Rightarrow> string option \<Rightarrow> event list \<times> string option \<times> exn option" where
  "run_body env dest =
     (case get_result env of
        Inl e \<Rightarrow> ([], dest, Some e)
      | Inr response \<Rightarrow>
          (case raise_for_status (status_code response) of
             Some e \<Rightarrow> ([], dest, Some e)
           | None \<Rightarrow>
               (case (case content_length response of None \<Rightarrow> Some 0 | Some h \<Rightarrow> py_int h) of
                  None \<Rightarrow> ([], dest, Some ValueError)
                | Some total_size \<Rightarrow>
                    (case open_error env of
                       Some e \<Rightarrow> ([], dest, Some e)
                     | None \<Rightarrow>
                         (case write_chunks total_size (write_error env) (body response) 0 [] of
                            (evs, content, Some e) \<Rightarrow> (evs, Some content, Some e)
                          | (evs, content, None) \<Rightarrow> (evs, Some content, body_error response))))))"

text \<open>\<^verbatim>\<open>DownloadThread.run\<close>: the signals in the order emitted, and the destination file.\<close>

definition run :: "download_env \<Rightarrow> string option \<Rightarrow> event list \<times> string option" where
  "run env dest =
     (case run_body env dest of
        (evs, dest', None) \<Rightarrow>
          (StatusSignal StartingDownload # evs
             @ [StatusSignal DownloadCompleted, CompletedSignal True DownloadPath], dest')
      | (evs, dest', Some e) \<Rightarrow>
          (StatusSignal StartingDownload # evs
             @ [StatusSignal (ErrorText e), CompletedSignal False (ErrorMessage e)], dest'))"

text \<open>
  The integer a \<open>ProgressSignal\<close> carries. The source computes it in binary floating
  point: a division, a multiplication by 100 and \<^verbatim>\<open>int\<close>, which truncates towards
  zero. The rounding of an arithmetic result to a floating-point number is the parameter
  \<open>rnd\<close>, of which the theorems use only that it is monotone; overflow is not modelled.
\<close>

definition truncate :: "rat \<Rightarrow> int" where
  "truncate x = (if 0 \<le> x then \<lfloor>x\<rfloor> else \<lceil>x\<rceil>)"

definition percent :: "(rat \<Rightarrow> rat) \<Rightarrow> nat \<Rightarrow> int \<Rightarrow> int" where
  "percent rnd downloaded total_size =
     truncate (rnd (rnd (of_nat downloaded / of_int total_size) * 100))"

text \<open>The byte counts and the percentages of a sequence of signals, in order; the terminal
  signals; the length the response declares (0 when it declares none that \<^verbatim>\<open>int\<close>
  reads); the status codes HTTP calls successful.\<close>

fun byte_counts :: "event list \<Rightarrow> nat list" where
  "byte_counts [] = []"
| "byte_counts (ProgressSignal d t # evs) = d # byte_counts evs"
| "byte_counts (StatusSignal (Downloading d) # evs) = d # byte_counts evs"
| "byte_counts (_ # evs) = byte_counts evs"

fun percents :: "(rat \<Rightarrow> rat) \<Rightarrow> event list \<Rightarrow> int list" where
  "percents rnd [] = []"
| "percents rnd (ProgressSignal d t # evs) = percent rnd d t # percents rnd evs"
| "percents rnd (_ # evs) = percents rnd evs"

fun is_terminal :: "event \<Rightarrow> bool" where
  "is_terminal (CompletedSignal _ _) = True"
| "is_terminal _ = False"

definition declared_size :: "download_env \<Rightarrow> int" where
  "declared_size env =
     (case get_result env of
        Inl _ \<Rightarrow> 0
      | Inr response \<Rightarrow>
          (case content_length response of
             None \<Rightarrow> 0
           | Some h \<Rightarrow> (case py_int h of None \<Rightarrow> 0 | Some n \<Rightarrow> n)))"

definition http_success :: "nat \<Rightarrow> bool" where
  "http_success code = (200 \<le> code \<and> code < 300)"

text \<open>An example environment: a response of two one-byte chunks around an empty one.\<close>

definition example_response :: "nat \<Rightarrow> string option \<Rightarrow> response" where
  "example_response code len =
     \<lparr>status_code = code, content_length = len, body = [''a'', [], ''b''], body_error = None\<rparr>"

definition example_env :: "nat \<Rightarrow> string option \<Rightarrow> download_env" where
  "example_env code len =
     \<lparr>get_result = Inr (example_response code len), open_error = None, write_error = (\<lambda>_. None)\<rparr>"

lemma truncate_mono: "x \<le> y \<Longrightarrow> truncate x \<le> truncate y"
proof -
  assume xy: "x \<le> y"
  show ?thesis
  proof (cases "0 \<le> x")
    case True
    with xy show ?thesis by (simp add: truncate_def floor_mono)
  next
    case False
    show ?thesis
    proof (cases "0 \<le> y")
      case True
      from False have "x \<le> 0" by simp
      then have "\<lceil>x\<rceil> \<le> 0" by (simp add: ceiling_le_zero)
      moreover from True have "0 \<le> \<lfloor>y\<rfloor>" by simp
      ultimately have "\<lceil>x\<rceil> \<le> \<lfloor>y\<rfloor>" by (rule order_trans)
      then show ?thesis using False True by (simp add: truncate_def)
    next
      case y: False
      with False xy show ?thesis by (simp add: truncate_def ceiling_mono)
    qed
  qed
qed

lemma percent_mono:
  assumes "mono rnd" and "0 < t" and "d \<le> d'"
  shows "percent rnd d t \<le> percent rnd d' t"
proof -
  have "(of_nat d :: rat) / of_int t \<le> of_nat d' / of_int t"
    using assms(2,3) by (simp add: divide_right_mono)
  then have "rnd (of_nat d / of_int t) \<le> rnd (of_nat d' / of_int t)"
    using assms(1) by (simp add: monoD)
  then have "rnd (of_nat d / of_int t) * 100 \<le> rnd (of_nat d' / of_int t) * 100"
    by simp
  then have "rnd (rnd (of_nat d / of_int t) * 100) \<le> rnd (rnd (of_nat d' / of_int t) * 100)"
    using assms(1) by (simp add: monoD)
  then show ?thesis unfolding percent_def by (rule truncate_mono)
qed

lemma byte_counts_append: "byte_counts (xs @ ys) = byte_counts xs @ byte_counts ys"
  by (induction xs rule: byte_counts.induct) auto

lemma percents_append: "percents rnd (xs @ ys) = percents rnd xs @ percents rnd ys"
  by (induction rnd xs rule: percents.induct) auto

lemma write_chunks_byte_counts:
  "sorted (byte_counts (fst (write_chunks t w cs d f)))
   \<and> (\<forall>x \<in> set (byte_counts (fst (write_chunks t w cs d f))). d < x)"
proof (induction cs arbitrary: d f)
  case Nil
  then show ?case by simp
next
  case (Cons c cs)
  show ?case
  proof (cases "c = []")
    case True
    with Cons show ?thesis by simp
  next
    case False
    then have pos: "d < d + length c" by simp
    show ?thesis
    proof (cases "w (d + length c)")
      case (Some e)
      with False show ?thesis by simp
    next
      case None
      obtain evs f' err where r: "write_chunks t w cs (d + length c) (f @ c) = (evs, f', err)"
        by (cases "write_chunks t w cs (d + length c) (f @ c)") auto
      from Cons[of "d + length c" "f @ c"] r
      have ih: "sorted (byte_counts evs)" "\<forall>x \<in> set (byte_counts evs). d + length c < x"
        by simp_all
      from ih pos have "sorted ((d + length c) # byte_counts evs)"
        and "sorted ((d + length c) # (d + length c) # byte_counts evs)"
        and "\<forall>x \<in> set (byte_counts evs). d < x"
        by (auto simp: less_imp_le)
      with False None r pos show ?thesis by simp
    qed
  qed
qed

lemma write_chunks_percents:
  assumes "mono rnd" and "0 \<le> t"
  shows "sorted (percents rnd (fst (write_chunks t w cs d f)))
   \<and> (\<forall>x \<in> set (percents rnd (fst (write_chunks t w cs d f))). percent rnd d t \<le> x)"
proof (induction cs arbitrary: d f)
  case Nil
  then show ?case by simp
next
  case (Cons c cs)
  show ?case
  proof (cases "c = []")
    case True
    with Cons show ?thesis by simp
  next
    case False
    show ?thesis
    proof (cases "w (d + length c)")
      case (Some e)
      with False show ?thesis by simp
    next
      case None
      obtain evs f' err where r: "write_chunks t w cs (d + length c) (f @ c) = (evs, f', err)"
        by (cases "write_chunks t w cs (d + length c) (f @ c)") auto
      from Cons[of "d + length c" "f @ c"] r
      have ih: "sorted (percents rnd evs)"
        "\<forall>x \<in> set (percents rnd evs). percent rnd (d + length c) t \<le> x"
        by simp_all
      show ?thesis
      proof (cases "t = 0")
        case True
        then have "percent rnd d t = percent rnd (d + length c) t" by (simp add: percent_def)
        with True False None r ih show ?thesis by simp
      next
        case nz: False
        with assms(2) have "0 < t" by simp
        then have step: "percent rnd d t \<le> percent rnd (d + length c) t"
          using percent_mono[OF assms(1), of t d "d + length c"] by simp
        with ih have "\<forall>x \<in> set (percents rnd evs). percent rnd d t \<le> x"
          by (meson order_trans)
        with False None r ih nz step show ?thesis by simp
      qed
    qed
  qed
qed

lemma write_chunks_no_terminal: "filter is_terminal (fst (write_chunks t w cs d f)) = []"
proof (induction cs arbitrary: d f)
  case Nil
  then show ?case by simp
next
  case (Cons c cs)
  show ?case
  proof (cases "c = [] \<or> w (d + length c) \<noteq> None")
    case True
    with Cons show ?thesis by auto
  next
    case False
    obtain evs f' err where r: "write_chunks t w cs (d + length c) (f @ c) = (evs, f', err)"
      by (cases "write_chunks t w cs (d + length c) (f @ c)") auto
    from Cons[of "d + length c" "f @ c"] r have "filter is_terminal evs = []" by simp
    with False r show ?thesis by auto
  qed
qed

lemma run_body_events:
  "fst (run_body env dest) = []
   \<or> (\<exists>r. get_result env = Inr r
        \<and> fst (run_body env dest) = fst (write_chunks (declared_size env) (write_error env) (body r) 0 []))"
  by (auto simp: run_body_def declared_size_def split: sum.splits option.splits prod.splits)

lemma run_events:
  "\<exists>s ok pl. fst (run env dest) =
       StatusSignal StartingDownload # fst (run_body env dest) @ [StatusSignal s, CompletedSignal ok pl]
     \<and> (\<forall>d. s \<noteq> Downloading d)"
  by (auto simp: run_def split: prod.splits option.splits)

lemma run_body_byte_counts: "sorted (byte_counts (fst (run_body env dest)))"
  using run_body_events[of env dest] write_chunks_byte_counts by (metis byte_counts.simps(1) sorted_wrt.simps(1))

lemma run_body_percents:
  "mono rnd \<Longrightarrow> 0 \<le> declared_size env \<Longrightarrow> sorted (percents rnd (fst (run_body env dest)))"
  using run_body_events[of env dest] write_chunks_percents[of rnd "declared_size env"]
  by (metis percents.simps(1) sorted_wrt.simps(1))

lemma run_body_no_terminal: "filter is_terminal (fst (run_body env dest)) = []"
  using run_body_events[of env dest] write_chunks_no_terminal by (metis filter.simps(1))

text \<open>
  Claim C7, as amended. A download whose response has a status code from 400 to 599 ends
  with a failed outcome, nothing else emitted but the two status texts, and the
  destination file as it was: it is not opened.
\<close>

theorem run_http_error:
  assumes "get_result env = Inr r" and "400 \<le> status_code r" and "status_code r < 600"
  shows "run env dest =
     ([StatusSignal StartingDownload, StatusSignal (ErrorText (HTTPError (status_code r))),
       CompletedSignal False (ErrorMessage (HTTPError (status_code r)))], dest)"
  using assms by (simp add: run_def run_body_def raise_for_status_def)

theorem run_http_error_witness:
  "get_result (example_env 404 None) = Inr (example_response 404 None)
   \<and> 400 \<le> status_code (example_response 404 None)
   \<and> status_code (example_response 404 None) < 600
   \<and> run (example_env 404 None) (Some ''old'') =
       ([StatusSignal StartingDownload, StatusSignal (ErrorText (HTTPError 404)),
         CompletedSignal False (ErrorMessage (HTTPError 404))], Some ''old'')"
proof -
  have g: "get_result (example_env 404 None) = Inr (example_response 404 None)"
    by (simp add: example_env_def)
  have c: "status_code (example_response 404 None) = 404"
    by (simp add: example_response_def)
  have lo: "400 \<le> status_code (example_response 404 None)" by (simp add: c)
  have hi: "status_code (example_response 404 None) < 600" by (simp add: c)
  from run_http_error[OF g lo hi, of "Some ''old''"] g lo hi c show ?thesis by simp
qed

text \<open>
  Claim C7 as the specification states it covers every status code that is not a success.
  A response with status 300 that the library hands over is written to the file, and the
  download completes.
\<close>

theorem run_redirect_status_counterexample:
  "\<not> http_success 300
   \<and> run (example_env 300 None) None =
       ([StatusSignal StartingDownload, StatusSignal (Downloading 1), StatusSignal (Downloading 2),
         StatusSignal DownloadCompleted, CompletedSignal True DownloadPath], Some ''ab'')"
proof -
  have a: "\<not> http_success 300" by (simp add: http_success_def)
  have b: "run (example_env 300 None) None =
       ([StatusSignal StartingDownload, StatusSignal (Downloading 1), StatusSignal (Downloading 2),
         StatusSignal DownloadCompleted, CompletedSignal True DownloadPath], Some ''ab'')"
    by code_simp
  from a b show ?thesis by blast
qed

text \<open>
  Claim C9, as amended. In every download the byte counts of the signals emitted are in
  non-decreasing order, and exactly one terminal signal (completed or failed) is emitted,
  as the last signal of all. The percentages are in non-decreasing order provided the
  length the response declares is not negative (the rounding of the floating-point
  arithmetic being monotone).
\<close>

theorem run_event_order:
  "sorted (byte_counts (fst (run env dest)))
    \<and> length (filter is_terminal (fst (run env dest))) = 1
    \<and> is_terminal (last (fst (run env dest)))
    \<and> (mono rnd \<and> 0 \<le> declared_size env \<longrightarrow> sorted (percents rnd (fst (run env dest))))"
proof -
  obtain s ok pl where evs: "fst (run env dest) =
       StatusSignal StartingDownload # fst (run_body env dest) @ [StatusSignal s, CompletedSignal ok pl]"
    and s: "\<forall>d. s \<noteq> Downloading d"
    using run_events[of env dest] by blast
  from s have bs: "byte_counts [StatusSignal s, CompletedSignal ok pl] = []"
    by (cases s) auto
  have "byte_counts (fst (run env dest)) = byte_counts (fst (run_body env dest))"
    by (simp add: evs byte_counts_append bs)
  then have a: "sorted (byte_counts (fst (run env dest)))"
    by (simp add: run_body_byte_counts)
  have p: "percents rnd (fst (run env dest)) = percents rnd (fst (run_body env dest))"
    by (simp add: evs percents_append)
  have b: "mono rnd \<and> 0 \<le> declared_size env \<longrightarrow> sorted (percents rnd (fst (run env dest)))"
    using run_body_percents[of rnd env dest] p by simp
  have c: "length (filter is_terminal (fst (run env dest))) = 1"
    by (simp add: evs run_body_no_terminal)
  have d: "is_terminal (last (fst (run env dest)))"
    by (simp add: evs)
  from a b c d show ?thesis by blast
qed

theorem run_event_order_witness:
  "mono (\<lambda>x :: rat. x) \<and> 0 \<le> declared_size (example_env 200 (Some ''3''))
   \<and> fst (run (example_env 200 (Some ''3'')) None) =
       [StatusSignal StartingDownload,
        ProgressSignal 1 3, StatusSignal (Downloading 1),
        ProgressSignal 2 3, StatusSignal (Downloading 2),
        StatusSignal DownloadCompleted, CompletedSignal True DownloadPath]
   \<and> percents (\<lambda>x. x) (fst (run (example_env 200 (Some ''3'')) None)) = [33, 66]
   \<and> sorted (byte_counts (fst (run (example_env 200 (Some ''3'')) None)))
   \<and> sorted (percents (\<lambda>x. x) (fst (run (example_env 200 (Some ''3'')) None)))
   \<and> length (filter is_terminal (fst (run (example_env 200 (Some ''3'')) None))) = 1
   \<and> is_terminal (last (fst (run (example_env 200 (Some ''3'')) None)))
   \<and> sorted (byte_counts (fst (run (example_env 200 (Some ''-1'')) None)))
   \<and> length (filter is_terminal (fst (run (example_env 200 (Some ''-1'')) None))) = 1
   \<and> is_terminal (last (fst (run (example_env 200 (Some ''-1'')) None)))"
proof -
  have m: "mono (\<lambda>x :: rat. x)" by (simp add: mono_def)
  have h: "0 \<le> declared_size (example_env 200 (Some ''3''))" by code_simp
  have evs: "fst (run (example_env 200 (Some ''3'')) None) =
       [StatusSignal StartingDownload,
        ProgressSignal 1 3, StatusSignal (Downloading 1),
        ProgressSignal 2 3, StatusSignal (Downloading 2),
        StatusSignal DownloadCompleted, CompletedSignal True DownloadPath]"
    by code_simp
  have ps: "percents (\<lambda>x. x) (fst (run (example_env 200 (Some ''3'')) None)) = [33, 66]"
    by code_simp
  from run_event_order[of "example_env 200 (Some ''3'')" None "\<lambda>x. x"]
       run_event_order[of "example_env 200 (Some ''-1'')" None "\<lambda>x. x"] m h evs ps
  show ?thesis by blast
qed

text \<open>
  Claim C9 as the specification states it has the percentages non-decreasing in every
  download. With a declared length of -1 and two chunks of one byte they are -100, then
  -200 (both exact in floating point).
\<close>

theorem run_negative_length_counterexample:
  "percents (\<lambda>x. x) (fst (run (example_env 200 (Some ''-1'')) None)) = [- 100, - 200]
   \<and> \<not> sorted (percents (\<lambda>x. x) (fst (run (example_env 200 (Some ''-1'')) None)))"
proof -
  have ps: "percents (\<lambda>x. x) (fst (run (example_env 200 (Some ''-1'')) None)) = [- 100, - 200]"
    by code_simp
  then show ?thesis by simp
qed

section \<open>The updater application\<close>

text \<open>Python's truth value of a value, \<^verbatim>\<open>d.get(k, default)\<close> and \<^verbatim>\<open>d[k] = v\<close>.\<close>

fun py_truthy :: "pyval \<Rightarrow> bool" where
  "py_truthy PNone = False"
| "py_truthy (PBool b) = b"
| "py_truthy (PInt i) = (i \<noteq> 0)"
| "py_truthy (PStr s) = (s \<noteq> [])"
| "py_truthy (PList xs) = (xs \<noteq> [])"
| "py_truthy (PDict xs) = (xs \<noteq> [])"

definition dict_get :: "(string \<times> pyval) list \<Rightarrow> string \<Rightarrow> pyval \<Rightarrow> pyval" where
  "dict_get d k dflt = (case map_of d k of None \<Rightarrow> dflt | Some v \<Rightarrow> v)"

fun dict_set :: "string \<Rightarrow> pyval \<Rightarrow> (string \<times> pyval) list \<Rightarrow> (string \<times> pyval) list" where
  "dict_set k v [] = [(k, v)]"
| "dict_set k v ((k', v') # d) = (if k' = k then (k, v) # d else (k', v') # dict_set k v d)"

text \<open>The icon types of \<^verbatim>\<open>set_status\<close> and the message boxes shown, with their title and
  the exception or the text they report.\<close>

datatype icon = InfoIcon | SuccessIcon | ErrorIcon | UpdateIcon

datatype dialog =
    Warning string exn
  | Critical string payload
  | Information string

text \<open>
  The state of \<^verbatim>\<open>UpdaterApp\<close>: its attributes, the widgets' properties the methods set,
  and the files it works on. \<open>config\<close> is the dictionary in memory and \<open>config_file\<close>
  what \<^verbatim>\<open>updater_config.json\<close> is: no file, a file holding a configuration, or a file
  cut short by a write that failed after the file was opened. \<open>update_url\<close> and
  \<open>update_notes\<close> are \<open>None\<close> until \<^verbatim>\<open>check_for_updates\<close> assigns the attributes.
  \<open>version_label\<close> is the version the label shows, \<open>download_thread\<close> the URL of the
  thread started, \<open>download_file\<close> the content of \<^verbatim>\<open>update.zip\<close> and \<open>extract_dir\<close> the
  entries of the extraction directory, both in the temporary directory, and \<open>live_dir\<close>
  the directory of the application. The configuration file and the temporary directory
  lie outside \<open>live_dir\<close>.
\<close>

datatype config_store = NoFile | Valid "(string \<times> pyval) list" | Truncated

record app =
  config :: "(string \<times> pyval) list"
  config_file :: config_store
  update_available :: bool
  update_url :: "pyval option"
  update_notes :: "pyval option"
  status_label :: status_text
  status_icon :: icon
  version_label :: "pyval option"
  check_btn_enabled :: bool
  download_btn_enabled :: bool
  notes_visible :: bool
  notes_content :: string
  progress_visible :: bool
  progress_value :: int
  splash_visible :: bool
  dialogs :: "dialog list"
  download_thread :: "pyval option"
  download_file :: "string option"
  extract_dir :: "(string \<times> node) list option"
  live_dir :: node

definition set_status :: "status_text \<Rightarrow> icon \<Rightarrow> app \<Rightarrow> app" where
  "set_status message icon_type s = s\<lparr>status_label := message, status_icon := icon_type\<rparr>"

text \<open>
  The answer to the manifest request: its status code and what \<^verbatim>\<open>response.json()\<close>
  returns or raises. The network is a function from the URL asked to the outcome of
  \<^verbatim>\<open>requests.get\<close>.
\<close>

record manifest_response =
  manifest_status :: nat
  manifest_json :: "exn + pyval"

text \<open>
  The body of the \<^verbatim>\<open>try\<close> of \<^verbatim>\<open>check_for_updates\<close>: the exception raised, if any,
  and the state then. \<^verbatim>\<open>update_info.get\<close> raises on a body that is no dictionary;
  on a dictionary it gives \<^verbatim>\<open>None\<close> for a missing key. \<^verbatim>\<open>setText\<close> raises on notes
  that are no string.
\<close>

definition check_body :: "(pyval \<Rightarrow> exn + manifest_response) \<Rightarrow> app \<Rightarrow> exn option \<times> app" where
  "check_body http_get s =
     (case map_of (config s) ''update_url'' of
        None \<Rightarrow> (Some (KeyError ''update_url''), s)
      | Some url \<Rightarrow>
     (case http_get url of
        Inl e \<Rightarrow> (Some e, s)
      | Inr response \<Rightarrow>
     (case raise_for_status (manifest_status response) of
        Some e \<Rightarrow> (Some e, s)
      | None \<Rightarrow>
     (case manifest_json response of
        Inl e \<Rightarrow> (Some e, s)
      | Inr (PDict update_info) \<Rightarrow>
          (let latest_version = dict_get update_info ''version'' PNone in
           case map_of (config s) ''current_version'' of
             None \<Rightarrow> (Some (KeyError ''current_version''), s)
           | Some current_version \<Rightarrow>
               (let notes = dict_get update_info ''notes'' (PStr []);
                    s1 = s\<lparr>update_url := Some (dict_get update_info ''download_url'' PNone),
                           update_notes := Some notes,
                           version_label := Some current_version,
                           splash_visible := False\<rparr>
                in if is_newer_version latest_version current_version then
                     (let s2 = (set_status (UpdateAvailable latest_version) UpdateIcon s1)
                                \<lparr>download_btn_enabled := True, update_available := True\<rparr>
                      in if py_truthy notes then
                           (case notes of
                              PStr notes_text \<Rightarrow> (None, s2\<lparr>notes_content := notes_text, notes_visible := True\<rparr>)
                            | _ \<Rightarrow> (Some TypeError, s2))
                         else (None, s2))
                   else
                     (None, (set_status (LatestVersion current_version) SuccessIcon s1)
                              \<lparr>update_available := False\<rparr>)))
      | Inr _ \<Rightarrow> (Some AttributeError, s)))))"

text \<open>\<^verbatim>\<open>check_for_updates\<close>, with its handler for every exception of the body.\<close>

definition check_for_updates :: "(pyval \<Rightarrow> exn + manifest_response) \<Rightarrow> app \<Rightarrow> app" where
  "check_for_updates http_get s =
     (case check_body http_get
             ((set_status CheckingForUpdates InfoIcon s)
                \<lparr>download_btn_enabled := False, notes_visible := False\<rparr>) of
        (None, s') \<Rightarrow> s'
      | (Some e, s') \<Rightarrow>
          (set_status ErrorChecking ErrorIcon s')
            \<lparr>splash_visible := False,
             dialogs := dialogs s' @ [Warning ''Update Check Failed'' e]\<rparr>)"

text \<open>
  \<^verbatim>\<open>download_update\<close>. Reading \<^verbatim>\<open>self.update_url\<close> before any check has assigned it
  raises; \<^verbatim>\<open>or\<close> does not read it when no update is available.
\<close>

definition download_update :: "app \<Rightarrow> exn + app" where
  "download_update s =
     (if \<not> update_available s then Inr s
      else (case update_url s of
              None \<Rightarrow> Inl AttributeError
            | Some url \<Rightarrow>
                if \<not> py_truthy url then Inr s
                else Inr (s\<lparr>progress_value := 0, progress_visible := True,
                            check_btn_enabled := False, download_btn_enabled := False,
                            download_thread := Some url\<rparr>)))"

text \<open>
  What the file system and the libraries do during an install: the exception of
  \<^verbatim>\<open>os.makedirs\<close> on the extraction directory; \<open>extractall archive entries\<close>, the
  outcome of opening the archive and extracting it into a directory holding \<open>entries\<close>,
  which is the directory's entries afterwards, on failure with the exception raised;
  \<^verbatim>\<open>json.load\<close> on a file's content; and how writing the configuration file goes:
  it is written, or \<^verbatim>\<open>open\<close> raises, or \<^verbatim>\<open>open\<close> has emptied the file and
  \<^verbatim>\<open>json.dump\<close> raises while writing.
\<close>

datatype persist_outcome = Written | OpenFailed | WriteFailed

record install_env =
  makedirs_error :: "exn option"
  extractall :: "string \<Rightarrow> (string \<times> node) list \<Rightarrow> exn \<times> (string \<times> node) list + (string \<times> node) list"
  json_load :: "string \<Rightarrow> exn + pyval"
  persist :: persist_outcome

text \<open>The first steps of \<^verbatim>\<open>install_update\<close>: the extraction directory and the
  extraction.\<close>

definition extract_step :: "install_env \<Rightarrow> app \<Rightarrow> exn option \<times> app" where
  "extract_step env s =
     (case (case extract_dir s of
              Some entries \<Rightarrow> Inr entries
            | None \<Rightarrow> (case makedirs_error env of Some e \<Rightarrow> Inl e | None \<Rightarrow> Inr [])) of
        Inl e \<Rightarrow> (Some e, s)
      | Inr entries \<Rightarrow>
          (case download_file s of
             None \<Rightarrow> (Some FileNotFoundError, s\<lparr>extract_dir := Some entries\<rparr>)
           | Some archive \<Rightarrow>
               (case extractall env archive entries of
                  Inl (e, partial) \<Rightarrow> (Some e, s\<lparr>extract_dir := Some partial\<rparr>)
                | Inr extracted \<Rightarrow> (None, s\<lparr>extract_dir := Some extracted\<rparr>))))"

text \<open>
  The inner \<^verbatim>\<open>try\<close>: reading \<^verbatim>\<open>version.json\<close> when it exists and writing the
  configuration. Any exception there is printed and ends the block; the configuration is
  then not written.
\<close>

definition save_config :: "install_env \<Rightarrow> app \<Rightarrow> app" where
  "save_config env s =
     (case persist env of
        Written \<Rightarrow> s\<lparr>config_file := Valid (config s)\<rparr>
      | OpenFailed \<Rightarrow> s
      | WriteFailed \<Rightarrow> s\<lparr>config_file := Truncated\<rparr>)"

definition update_version :: "install_env \<Rightarrow> (string \<times> node) list \<Rightarrow> app \<Rightarrow> app" where
  "update_version env extracted s =
     (case map_of extracted ''version.json'' of
        None \<Rightarrow> save_config env s
      | Some (Dir _) \<Rightarrow> s
      | Some (File content) \<Rightarrow>
          (case json_load env content of
             Inl e \<Rightarrow> s
           | Inr (PDict version_info) \<Rightarrow>
               (case map_of (config s) ''current_version'' of
                  None \<Rightarrow> s
                | Some current \<Rightarrow>
                    save_config env
                      (s\<lparr>config := dict_set ''current_version''
                                      (dict_get version_info ''version'' current) (config s)\<rparr>))
           | Inr _ \<Rightarrow> s))"

text \<open>The body of the outer \<^verbatim>\<open>try\<close> of \<^verbatim>\<open>install_update\<close>, then the method with its
  handler and its \<^verbatim>\<open>finally\<close>, and \<^verbatim>\<open>handle_download_complete\<close>.\<close>

definition install_body :: "install_env \<Rightarrow> app \<Rightarrow> exn option \<times> app" where
  "install_body env s =
     (case extract_step env s of
        (Some e, s1) \<Rightarrow> (Some e, s1)
      | (None, s1) \<Rightarrow>
          (let extracted = (case extract_dir s1 of None \<Rightarrow> [] | Some entries \<Rightarrow> entries) in
           case copy_with_overwrite extracted (live_dir s1) of
             (Some e, live') \<Rightarrow> (Some e, s1\<lparr>live_dir := live'\<rparr>)
           | (None, live') \<Rightarrow>
               (let s2 = update_version env extracted (s1\<lparr>live_dir := live'\<rparr>) in
                (None, (set_status UpdateInstalled SuccessIcon s2)
                         \<lparr>dialogs := dialogs s2 @ [Information ''Update Complete''],
                          check_btn_enabled := True\<rparr>))))"

definition install_update :: "install_env \<Rightarrow> app \<Rightarrow> app" where
  "install_update env s =
     (case install_body env s of
        (None, s') \<Rightarrow> s'\<lparr>progress_visible := False\<rparr>
      | (Some e, s') \<Rightarrow>
          ((set_status InstallationFailed ErrorIcon s')
             \<lparr>dialogs := dialogs s' @ [Critical ''Installation Failed'' (ErrorMessage e)],
              check_btn_enabled := True, download_btn_enabled := True\<rparr>)
            \<lparr>progress_visible := False\<rparr>)"

definition handle_download_complete :: "install_env \<Rightarrow> bool \<Rightarrow> payload \<Rightarrow> app \<Rightarrow> app" where
  "handle_download_complete env success result s =
     (if success then install_update env (set_status InstallingUpdate InfoIcon s)
      else (set_status DownloadFailed ErrorIcon s)
             \<lparr>dialogs := dialogs s @ [Critical ''Download Failed'' result],
              progress_visible := False, check_btn_enabled := True,
              download_btn_enabled := True\<rparr>)"



definition notes_ok :: "(string \<times> pyval) list \<Rightarrow> bool" where
  "notes_ok update_info =
     (case dict_get update_info ''notes'' (PStr []) of
        PStr _ \<Rightarrow> True
      | v \<Rightarrow> \<not> py_truthy v)"

definition default_config :: "(string \<times> pyval) list" where
  "default_config =
     [(''app_name'', PStr ''YourApp''),
      (''current_version'', PStr ''1.0.0''),
      (''update_url'', PStr ''https://yourusername.github.io/app-updates/latest.json''),
      (''website_url'', PStr ''https://yourusername.github.io/app-updates/'')]"

definition initial_app :: app where
  "initial_app =
     \<lparr>config = default_config, config_file = Valid default_config,
      update_available = False, update_url = None, update_notes = None,
      status_label = CheckingForUpdates, status_icon = InfoIcon, version_label = None,
      check_btn_enabled = True, download_btn_enabled = False,
      notes_visible = False, notes_content = [],
      progress_visible = False, progress_value = 0,
      splash_visible = True, dialogs = [],
      download_thread = None, download_file = None, extract_dir = None,
      live_dir = Dir [(''updater.py'', File ''updater''), (''app.py'', File ''old'')]\<rparr>"

definition serve :: "pyval \<Rightarrow> pyval \<Rightarrow> exn + manifest_response" where
  "serve manifest url = Inr \<lparr>manifest_status = 200, manifest_json = Inr manifest\<rparr>"

definition corrupt_archive_env :: install_env where
  "corrupt_archive_env =
     \<lparr>makedirs_error = None,
      extractall = (\<lambda>archive entries. Inl (ArchiveError ''File is not a zip file'', entries)),
      json_load = (\<lambda>content. Inl (JSONDecodeError content)),
      persist = Written\<rparr>"


definition downloaded_app :: app where
  "downloaded_app = initial_app\<lparr>download_file := Some ''PK''\<rparr>"


lemma py_eq_None: "py_eq PNone v = (v = PNone)"
  by (cases v; simp)

lemma is_newer_version_None: "is_newer_version PNone v = (v \<noteq> PNone)"
  by (simp add: is_newer_version_def int_tuple_def py_eq_None del: py_eq.simps)

lemma check_body_dict:
  assumes "map_of (config s) ''update_url'' = Some url"
    and "map_of (config s) ''current_version'' = Some cv"
    and "http_get url = Inr r"
    and "raise_for_status (manifest_status r) = None"
    and "manifest_json r = Inr (PDict d)"
    and "notes_ok d"
  shows "fst (check_body http_get s) = None"
    and "dialogs (snd (check_body http_get s)) = dialogs s"
    and "update_url (snd (check_body http_get s)) = Some (dict_get d ''download_url'' PNone)"
    and "update_available (snd (check_body http_get s))
           = is_newer_version (dict_get d ''version'' PNone) cv"
    and "status_label (snd (check_body http_get s))
           = (if is_newer_version (dict_get d ''version'' PNone) cv
              then UpdateAvailable (dict_get d ''version'' PNone) else LatestVersion cv)"
    and "download_btn_enabled (snd (check_body http_get s))
           = (is_newer_version (dict_get d ''version'' PNone) cv \<or> download_btn_enabled s)"
  using assms
  by (auto simp: check_body_def notes_ok_def set_status_def Let_def split: pyval.splits)

lemma extract_step_frame:
  "live_dir (snd (extract_step env s)) = live_dir s"
  "config (snd (extract_step env s)) = config s"
  "config_file (snd (extract_step env s)) = config_file s"
  "dialogs (snd (extract_step env s)) = dialogs s"
  by (auto simp: extract_step_def split: option.splits sum.splits prod.splits)

lemma install_update_extract_fails:
  assumes "fst (extract_step env s) = Some e"
  shows "live_dir (install_update env s) = live_dir s
    \<and> config (install_update env s) = config s
    \<and> config_file (install_update env s) = config_file s
    \<and> status_label (install_update env s) = InstallationFailed
    \<and> dialogs (install_update env s) = dialogs s @ [Critical ''Installation Failed'' (ErrorMessage e)]"
proof -
  obtain s1 where r: "extract_step env s = (Some e, s1)"
    using assms by (cases "extract_step env s") auto
  then have s1: "s1 = snd (extract_step env s)" by simp
  have "install_body env s = (Some e, s1)"
    by (simp add: install_body_def r)
  then show ?thesis
    by (simp add: install_update_def set_status_def s1 extract_step_frame)
qed



lemma extract_step_fails:
  assumes "extract_dir s \<noteq> None \<or> makedirs_error env = None"
    and "download_file s = Some archive"
    and "extractall env archive (case extract_dir s of None \<Rightarrow> [] | Some entries \<Rightarrow> entries)
           = Inl (e, partial)"
  shows "fst (extract_step env s) = Some e"
  using assms by (auto simp: extract_step_def split: option.splits)


text \<open>
  Claim C4, as amended. When the manifest is fetched and its body is a JSON object that
  lacks \<open>version\<close> or \<open>download_url\<close> (its notes absent or a string), the update check
  raises no error: the missing field is read as \<^verbatim>\<open>None\<close>. Without \<open>download_url\<close>
  the versions are compared as usual and \<^verbatim>\<open>None\<close> is retained as the URL. Without
  \<open>version\<close> the comparison falls back to inequality with \<^verbatim>\<open>None\<close>, so an update is
  reported available whenever the current version is not \<^verbatim>\<open>None\<close>.
\<close>

theorem check_for_updates_missing_fields:
  assumes "map_of (config s) ''update_url'' = Some url"
    and "map_of (config s) ''current_version'' = Some cv"
    and "http_get url = Inr r"
    and "raise_for_status (manifest_status r) = None"
    and "manifest_json r = Inr (PDict d)"
    and "notes_ok d"
    and "map_of d ''version'' = None \<or> map_of d ''download_url'' = None"
  shows "dialogs (check_for_updates http_get s) = dialogs s
    \<and> status_label (check_for_updates http_get s) \<noteq> ErrorChecking
    \<and> update_url (check_for_updates http_get s) = Some (dict_get d ''download_url'' PNone)
    \<and> update_available (check_for_updates http_get s)
          = is_newer_version (dict_get d ''version'' PNone) cv
    \<and> (map_of d ''download_url'' = None \<longrightarrow>
          update_url (check_for_updates http_get s) = Some PNone)
    \<and> (map_of d ''version'' = None \<longrightarrow>
          update_available (check_for_updates http_get s) = (cv \<noteq> PNone)
          \<and> (cv \<noteq> PNone \<longrightarrow>
                status_label (check_for_updates http_get s) = UpdateAvailable PNone
                \<and> download_btn_enabled (check_for_updates http_get s)))"
proof -
  define s0 where "s0 = (set_status CheckingForUpdates InfoIcon s)
                \<lparr>download_btn_enabled := False, notes_visible := False\<rparr>"
  have c: "map_of (config s0) ''update_url'' = Some url"
    "map_of (config s0) ''current_version'' = Some cv"
    using assms(1,2) by (simp_all add: s0_def set_status_def)
  note b = check_body_dict[where s = s0 and http_get = http_get, OF c assms(3-6)]
  obtain s' where r: "check_body http_get s0 = (None, s')"
    using b(1) by (cases "check_body http_get s0") auto
  have eq: "check_for_updates http_get s = s'"
    by (simp add: check_for_updates_def s0_def[symmetric] r)
  have d0: "dialogs s0 = dialogs s" by (simp add: s0_def set_status_def)
  have e0: "\<not> download_btn_enabled s0" by (simp add: s0_def)
  from b(2-6) r d0 e0 have
    f1: "dialogs s' = dialogs s"
    and f2: "update_url s' = Some (dict_get d ''download_url'' PNone)"
    and f3: "update_available s' = is_newer_version (dict_get d ''version'' PNone) cv"
    and f4: "status_label s' = (if is_newer_version (dict_get d ''version'' PNone) cv
              then UpdateAvailable (dict_get d ''version'' PNone) else LatestVersion cv)"
    and f5: "download_btn_enabled s' = is_newer_version (dict_get d ''version'' PNone) cv"
    by simp_all
  from f4 have f6: "status_label s' \<noteq> ErrorChecking" by simp
  have f7: "map_of d ''download_url'' = None \<longrightarrow> update_url s' = Some PNone"
    using f2 by (simp add: dict_get_def)
  have f8: "map_of d ''version'' = None \<longrightarrow>
          update_available s' = (cv \<noteq> PNone)
          \<and> (cv \<noteq> PNone \<longrightarrow> status_label s' = UpdateAvailable PNone \<and> download_btn_enabled s')"
    using f3 f4 f5 by (simp add: dict_get_def is_newer_version_None)
  from f1 f2 f3 f6 f7 f8 show ?thesis unfolding eq by blast
qed

theorem check_for_updates_missing_fields_witness:
  "map_of (config initial_app) ''update_url''
     = Some (PStr ''https://yourusername.github.io/app-updates/latest.json'')
   \<and> map_of (config initial_app) ''current_version'' = Some (PStr ''1.0.0'')
   \<and> notes_ok [(''version'', PStr ''2.0.0'')]
   \<and> map_of [(''version'', PStr ''2.0.0'')] ''download_url'' = None
   \<and> dialogs (check_for_updates (serve (PDict [(''version'', PStr ''2.0.0'')])) initial_app) = []
   \<and> update_url (check_for_updates (serve (PDict [(''version'', PStr ''2.0.0'')])) initial_app)
       = Some PNone
   \<and> update_available (check_for_updates (serve (PDict [(''version'', PStr ''2.0.0'')])) initial_app)"
proof -
  let ?d = "[(''version'', PStr ''2.0.0'')]"
  let ?url = "PStr ''https://yourusername.github.io/app-updates/latest.json''"
  let ?r = "\<lparr>manifest_status = 200, manifest_json = Inr (PDict ?d)\<rparr>"
  have h1: "map_of (config initial_app) ''update_url'' = Some ?url" by code_simp
  have h2: "map_of (config initial_app) ''current_version'' = Some (PStr ''1.0.0'')" by code_simp
  have h3: "serve (PDict ?d) ?url = Inr ?r" by (simp add: serve_def)
  have h4: "raise_for_status (manifest_status ?r) = None" by (simp add: raise_for_status_def)
  have h5: "manifest_json ?r = Inr (PDict ?d)" by simp
  have h6: "notes_ok ?d" by code_simp
  have h7: "map_of ?d ''download_url'' = None" by simp
  then have h7': "map_of ?d ''version'' = None \<or> map_of ?d ''download_url'' = None" by simp
  have n: "is_newer_version (dict_get ?d ''version'' PNone) (PStr ''1.0.0'')" by code_simp
  have d0: "dialogs initial_app = []" by (simp add: initial_app_def)
  from check_for_updates_missing_fields[where http_get = "serve (PDict ?d)" and s = initial_app
      and url = ?url and r = ?r and d = ?d, OF h1 h2 h3 h4 h5 h6 h7'] h1 h2 h6 h7 n d0
  show ?thesis by (simp add: dict_get_def)
qed

text \<open>
  Claim C4 as the specification states it has a manifest without \<open>version\<close> end in an
  error. With the default configuration the check reports an update available, enables
  the download button and shows no message box.
\<close>

theorem check_for_updates_missing_version_counterexample:
  "map_of [(''download_url'', PStr ''https://x/pkg.zip'')] ''version'' = None
   \<and> status_label (check_for_updates
        (serve (PDict [(''download_url'', PStr ''https://x/pkg.zip'')])) initial_app)
       = UpdateAvailable PNone
   \<and> update_available (check_for_updates
        (serve (PDict [(''download_url'', PStr ''https://x/pkg.zip'')])) initial_app)
   \<and> download_btn_enabled (check_for_updates
        (serve (PDict [(''download_url'', PStr ''https://x/pkg.zip'')])) initial_app)
   \<and> dialogs (check_for_updates
        (serve (PDict [(''download_url'', PStr ''https://x/pkg.zip'')])) initial_app) = []"
proof -
  let ?s = "check_for_updates (serve (PDict [(''download_url'', PStr ''https://x/pkg.zip'')])) initial_app"
  have a: "map_of [(''download_url'', PStr ''https://x/pkg.zip'')] ''version'' = None" by simp
  have b: "status_label ?s = UpdateAvailable PNone" by code_simp
  have c: "update_available ?s" by code_simp
  have d: "download_btn_enabled ?s" by code_simp
  have e: "dialogs ?s = []" by code_simp
  from a b c d e show ?thesis by blast
qed

text \<open>
  Claim C10. When no update is available, or the URL retained by the last check is
  \<^verbatim>\<open>None\<close> or otherwise false, \<^verbatim>\<open>download_update\<close> returns with the state unchanged:
  no thread is started, no file is written, no widget changes.
\<close>

theorem download_update_noop:
  assumes "\<not> update_available s \<or> (\<exists>v. update_url s = Some v \<and> \<not> py_truthy v)"
  shows "download_update s = Inr s"
  using assms by (auto simp: download_update_def)

theorem download_update_noop_witness:
  "\<not> update_available initial_app
   \<and> download_update initial_app = Inr initial_app
   \<and> update_available (check_for_updates (serve (PDict [(''version'', PStr ''2.0.0'')])) initial_app)
   \<and> update_url (check_for_updates (serve (PDict [(''version'', PStr ''2.0.0'')])) initial_app)
       = Some PNone
   \<and> \<not> py_truthy PNone
   \<and> download_update (check_for_updates (serve (PDict [(''version'', PStr ''2.0.0'')])) initial_app)
       = Inr (check_for_updates (serve (PDict [(''version'', PStr ''2.0.0'')])) initial_app)"
proof -
  let ?s = "check_for_updates (serve (PDict [(''version'', PStr ''2.0.0'')])) initial_app"
  have a: "\<not> update_available initial_app" by (simp add: initial_app_def)
  then have a': "\<not> update_available initial_app
      \<or> (\<exists>v. update_url initial_app = Some v \<and> \<not> py_truthy v)" by simp
  have b: "update_available ?s" by code_simp
  have c: "update_url ?s = Some PNone" by code_simp
  have d: "\<not> py_truthy PNone" by simp
  from c d have c': "\<not> update_available ?s \<or> (\<exists>v. update_url ?s = Some v \<and> \<not> py_truthy v)"
    by blast
  from download_update_noop[OF a'] download_update_noop[OF c'] a b c d show ?thesis by simp
qed

text \<open>
  Claim C3. When the extraction of the downloaded archive fails, the install ends in the
  failure state with the exception reported, and the live directory, the configuration
  and the configuration file are what they were: the merge is not reached.
\<close>

theorem install_update_extraction_failure:
  assumes "extract_dir s \<noteq> None \<or> makedirs_error env = None"
    and "download_file s = Some archive"
    and "extractall env archive (case extract_dir s of None \<Rightarrow> [] | Some entries \<Rightarrow> entries)
           = Inl (e, partial)"
  shows "live_dir (install_update env s) = live_dir s
    \<and> config (install_update env s) = config s
    \<and> config_file (install_update env s) = config_file s
    \<and> status_label (install_update env s) = InstallationFailed
    \<and> dialogs (install_update env s) = dialogs s @ [Critical ''Installation Failed'' (ErrorMessage e)]"
  by (rule install_update_extract_fails[OF extract_step_fails[OF assms]])

theorem install_update_extraction_failure_witness:
  "makedirs_error corrupt_archive_env = None
   \<and> download_file downloaded_app = Some ''PK''
   \<and> extractall corrupt_archive_env ''PK''
        (case extract_dir downloaded_app of None \<Rightarrow> [] | Some entries \<Rightarrow> entries)
       = Inl (ArchiveError ''File is not a zip file'', [])
   \<and> live_dir (install_update corrupt_archive_env downloaded_app) = live_dir downloaded_app
   \<and> config_file (install_update corrupt_archive_env downloaded_app) = config_file downloaded_app
   \<and> status_label (install_update corrupt_archive_env downloaded_app) = InstallationFailed
   \<and> dialogs (install_update corrupt_archive_env downloaded_app)
       = [Critical ''Installation Failed'' (ErrorMessage (ArchiveError ''File is not a zip file''))]"
proof -
  have h0: "makedirs_error corrupt_archive_env = None"
    by (simp add: corrupt_archive_env_def)
  then have h1: "extract_dir downloaded_app \<noteq> None \<or> makedirs_error corrupt_archive_env = None"
    by simp
  have h2: "download_file downloaded_app = Some ''PK''"
    by (simp add: downloaded_app_def)
  have h3: "extractall corrupt_archive_env ''PK''
        (case extract_dir downloaded_app of None \<Rightarrow> [] | Some entries \<Rightarrow> entries)
       = Inl (ArchiveError ''File is not a zip file'', [])"
    by (simp add: corrupt_archive_env_def downloaded_app_def initial_app_def)
  have d: "dialogs downloaded_app = []"
    by (simp add: downloaded_app_def initial_app_def)
  from install_update_extraction_failure[OF h1 h2 h3] h0 h2 h3 d show ?thesis by simp
qed




end
